theory Spec2Isabelle
  imports Main "HOL-Library.AList"
begin

section \<open>Data model of the diary bot (diary_bot_v2.py)\<close>

text \<open>
  The bot keeps one JSON document, \<^verbatim>\<open>users_data.json\<close>, that maps a user id to a
  profile dictionary. The model keeps the document as an association list (Python
  dictionaries iterate in insertion order, and the scheduler iterates over it), and a
  profile as a record with one field per key the program reads. A key the program reads
  with \<^verbatim>\<open>.get\<close> is an option: \<open>None\<close> stands for an absent key (and for the
  null that \<^verbatim>\<open>/start\<close> writes for some of the keys).

  Day names are the seven entries of \<^verbatim>\<open>DAYS_OF_WEEK\<close>, Monday first; the model
  uses a datatype in the same order in place of the Russian names.
\<close>

datatype weekday = Monday | Tuesday | Wednesday | Thursday | Friday | Saturday | Sunday

definition DAYS_OF_WEEK :: "weekday list" where
  "DAYS_OF_WEEK = [Monday, Tuesday, Wednesday, Thursday, Friday, Saturday, Sunday]"

definition DEFAULT_TIMEZONE :: string where
  "DEFAULT_TIMEZONE = ''Asia/Irkutsk''"

definition SUMMARY_TIME :: string where
  "SUMMARY_TIME = ''23:59''"

text \<open>
  A plan entry is either a dictionary \<^verbatim>\<open>{"time": ..., "text": ...}\<close>, as
  \<^verbatim>\<open>enter_plans\<close> writes it, or a bare string (the format of the first revision of the
  bot, which \<^verbatim>\<open>format_plan_line\<close> and the scheduler still accept through
  \<^verbatim>\<open>isinstance(plan, dict)\<close>).
\<close>

datatype plan = PlanText string | PlanDict "string option" string

datatype error = TelegramError | KeyError | ValueError | IndexError

datatype conv_state = MAIN_MENU | CHOOSING_DAY | ENTERING_PLANS | REVIEW_PLANS | ITOG_REVIEW

text \<open>The two texts that the filter of the \<^verbatim>\<open>ITOG_REVIEW\<close> state lets through.\<close>

datatype answer = Da | Net

record itog_state =
  itog_date :: string
  day_name :: weekday
  itog_plans :: "plan list"
  current_index :: int
  completed :: "int list"
  list_message_id :: nat
  question_message_id :: nat

record user_data =
  timezone :: "string option"
  notification_time :: "string option"
  plans :: "(weekday \<rightharpoonup> plan list) option"
  setup_complete :: bool
  last_message_id :: "nat option"
  last_summary_date :: "string option"
  itog_state :: "itog_state option"
  last_bot_message_id :: "nat option"
  last_bot_message_chat_id :: "string option"
  sent_flags :: "string \<rightharpoonup> bool"

text \<open>
  The local time of a user, as \<^verbatim>\<open>get_user_now\<close> returns it: the day name, the two
  renderings of the date the program uses (\<^verbatim>\<open>%Y-%m-%d\<close> and \<^verbatim>\<open>%d.%m.%Y\<close>), the hour and
  the minute. The clock is a parameter: a function from the name of a time zone to the
  local time there (the fallback of \<^verbatim>\<open>get_user_now\<close> for an unknown zone is part of it).
\<close>

record local_time =
  lt_weekday :: weekday
  lt_ymd :: string
  lt_dmy :: string
  lt_hour :: nat
  lt_minute :: nat

type_synonym clock = "string \<Rightarrow> local_time"

text \<open>
  What a message says is kept as a constructor that carries the data interpolated into
  the text; the wording and the keyboards are presentation.
\<close>

datatype content =
    StartFirst
  | NoEntriesToday
  | ItogList weekday string "plan list" "int list"
  | ItogQuestion plan int
  | ItogNotActive
  | ItogNoPlans
  | ItogAllDone
  | WhatNext
  | ItogDone nat nat
  | BackToMenu
  | MorningBrief weekday "plan list" "string list"
  | Reminder string string
  | Summary string weekday "plan list"
  | TimeSaved string string
  | TimeError
  | MainMenuText

text \<open>
  The world outside the handlers: the two JSON documents, the messages the transport has
  delivered (oldest first, with the chat they went to), the id the next message gets, and
  the chats that cannot be reached (sending to one raises).
\<close>

record world =
  users_file :: "(string \<times> user_data) list"
  global_plans_file :: "(string \<times> string list) list"
  outbox :: "(string \<times> content) list"
  next_message_id :: nat
  blocked :: "string list"

type_synonym 'a outcome = "(error \<times> world) + ('a \<times> world)"

section \<open>Helpers\<close>

definition empty_user :: user_data where
  "empty_user = \<lparr> timezone = None, notification_time = None, plans = None,
     setup_complete = False, last_message_id = None, last_summary_date = None,
     itog_state = None, last_bot_message_id = None, last_bot_message_chat_id = None,
     sent_flags = Map.empty \<rparr>"

definition get_user_timezone :: "user_data \<Rightarrow> string" where
  "get_user_timezone user = (case timezone user of None \<Rightarrow> DEFAULT_TIMEZONE | Some tz \<Rightarrow> tz)"

definition get_user_now :: "clock \<Rightarrow> user_data \<Rightarrow> local_time" where
  "get_user_now clk user = clk (get_user_timezone user)"

text \<open>\<^verbatim>\<open>user.get('plans', {}).get(day, [])\<close>\<close>

definition day_plans_of :: "user_data \<Rightarrow> weekday \<Rightarrow> plan list" where
  "day_plans_of user d =
     (case plans user of None \<Rightarrow> [] | Some p \<Rightarrow> (case p d of None \<Rightarrow> [] | Some ps \<Rightarrow> ps))"

text \<open>\<^verbatim>\<open>enumerate(xs)\<close>, with Python's integers.\<close>

definition py_enumerate :: "'a list \<Rightarrow> (int \<times> 'a) list" where
  "py_enumerate xs = zip (map int [0..<length xs]) xs"

text \<open>
  \<^verbatim>\<open>list(set(xs))\<close>: the elements without repetition. Python leaves the order open; the
  model takes the ascending one, and nothing below depends on it.
\<close>

definition py_list_of_set :: "int list \<Rightarrow> int list" where
  "py_list_of_set xs = sort (remdups xs)"

text \<open>\<^verbatim>\<open>xs[i]\<close>: an index below zero counts from the end, one outside the list raises.\<close>

definition py_index :: "'a list \<Rightarrow> int \<Rightarrow> error + 'a" where
  "py_index xs i =
     (if 0 \<le> i \<and> i < int (length xs) then Inr (xs ! nat i)
      else if i < 0 \<and> - int (length xs) \<le> i then Inr (xs ! nat (int (length xs) + i))
      else Inl IndexError)"

text \<open>\<^verbatim>\<open>bot.send_message\<close>: raises for an unreachable chat, else delivers and returns the id.\<close>

definition send_message :: "world \<Rightarrow> string \<Rightarrow> content \<Rightarrow> error + (nat \<times> world)" where
  "send_message w chat_id c =
     (if chat_id \<in> set (blocked w) then Inl TelegramError
      else Inr (next_message_id w,
                w\<lparr>outbox := outbox w @ [(chat_id, c)],
                  next_message_id := Suc (next_message_id w)\<rparr>))"

text \<open>
  \<^verbatim>\<open>send_and_replace(update, users, text)\<close> for an update that carries a message in a
  private chat (the chat id is the user id). Deleting the previous bot message is
  best-effort and changes nothing the model keeps. The profile is looked up with
  \<^verbatim>\<open>users.get(user_id, {})\<close>, so an unknown user gets a profile with the two
  bookkeeping keys only. The new dictionary is written to the file.
\<close>

definition send_and_replace ::
  "string \<Rightarrow> (string \<times> user_data) list \<Rightarrow> content \<Rightarrow> world \<Rightarrow> (error \<times> world) + world" where
  "send_and_replace user_id users c w =
     (let user = (case map_of users user_id of None \<Rightarrow> empty_user | Some u \<Rightarrow> u) in
      case send_message w user_id c of
        Inl e \<Rightarrow> Inl (e, w)
      | Inr (mid, w1) \<Rightarrow>
          Inr (w1\<lparr>users_file :=
                 AList.update user_id
                   (user\<lparr>last_bot_message_id := Some mid,
                         last_bot_message_chat_id := Some user_id\<rparr>) users\<rparr>))"

text \<open>A handler that ends with one reply and a return value.\<close>

definition reply_and_return ::
  "string \<Rightarrow> (string \<times> user_data) list \<Rightarrow> content \<Rightarrow> conv_state \<Rightarrow> world \<Rightarrow> conv_state outcome" where
  "reply_and_return user_id users c st w =
     (case send_and_replace user_id users c w of
        Inl ew \<Rightarrow> Inl ew
      | Inr w1 \<Rightarrow> Inr (st, w1))"

text \<open>A handler that ends with two replies, the second from the dictionary the first saved.\<close>

definition reply_twice_and_return ::
  "string \<Rightarrow> (string \<times> user_data) list \<Rightarrow> content \<Rightarrow> content \<Rightarrow> conv_state \<Rightarrow> world
     \<Rightarrow> conv_state outcome" where
  "reply_twice_and_return user_id users c1 c2 st w =
     (case send_and_replace user_id users c1 w of
        Inl ew \<Rightarrow> Inl ew
      | Inr w1 \<Rightarrow> reply_and_return user_id (users_file w1) c2 st w1)"

section \<open>The evening review (itog)\<close>

text \<open>
  \<^verbatim>\<open>apply_itog_results_to_plans(user, state)\<close>. The guard \<^verbatim>\<open>not day_name\<close> never
  holds for a state written by \<^verbatim>\<open>start_itog\<close>, so the model's state always has a day.
\<close>

definition apply_itog_results_to_plans :: "user_data \<Rightarrow> itog_state \<Rightarrow> user_data" where
  "apply_itog_results_to_plans user state =
     (let snapshot = itog_plans state; cset = set (completed state) in
      if snapshot = [] \<or> cset = {} then user
      else
        let remaining = map snd (filter (\<lambda>(idx, p). idx \<notin> cset) (py_enumerate snapshot))
        in user\<lparr>plans :=
             Some ((case plans user of None \<Rightarrow> Map.empty | Some p \<Rightarrow> p)
                     (day_name state \<mapsto> remaining))\<rparr>)"

text \<open>
  \<^verbatim>\<open>start_itog\<close>, the handler of \<^verbatim>\<open>/itog\<close>. Tearing down the messages of an older session
  only deletes messages.
\<close>

definition start_itog :: "clock \<Rightarrow> string \<Rightarrow> world \<Rightarrow> conv_state outcome" where
  "start_itog clk user_id w =
     (let users = users_file w in
      case map_of users user_id of
        None \<Rightarrow> reply_and_return user_id users StartFirst MAIN_MENU w
      | Some user \<Rightarrow>
          let today = get_user_now clk user;
              dname = lt_weekday today;
              today_plans = day_plans_of user dname;
              date_text = lt_dmy today
          in
          if today_plans = [] then reply_and_return user_id users NoEntriesToday MAIN_MENU w
          else
            (case send_message w user_id (ItogList dname date_text today_plans []) of
               Inl e \<Rightarrow> Inl (e, w)
             | Inr (list_id, w1) \<Rightarrow>
                 (case send_message w1 user_id (ItogQuestion (hd today_plans) 0) of
                    Inl e \<Rightarrow> Inl (e, w1)
                  | Inr (question_id, w2) \<Rightarrow>
                      let user1 = user\<lparr>itog_state := Some
                            \<lparr> itog_date = date_text, day_name = dname,
                              itog_plans = today_plans, current_index = 0,
                              completed = [], list_message_id = list_id,
                              question_message_id = question_id \<rparr>\<rparr>
                      in Inr (ITOG_REVIEW,
                              w2\<lparr>users_file := AList.update user_id user1 users\<rparr>))))"

text \<open>
  The end of a session in \<^verbatim>\<open>handle_itog_response\<close>: apply the results, clear the state,
  save, and send the two closing messages.
\<close>

definition finish_itog ::
  "string \<Rightarrow> (string \<times> user_data) list \<Rightarrow> user_data \<Rightarrow> itog_state \<Rightarrow> content \<Rightarrow> content
     \<Rightarrow> world \<Rightarrow> conv_state outcome" where
  "finish_itog user_id users user state c1 c2 w =
     (let user1 = (apply_itog_results_to_plans user state)\<lparr>itog_state := None\<rparr>;
          users1 = AList.update user_id user1 users;
          w1 = w\<lparr>users_file := users1\<rparr>
      in reply_twice_and_return user_id users1 c1 c2 MAIN_MENU w1)"

text \<open>\<^verbatim>\<open>handle_itog_response\<close>, the handler of the answers in \<^verbatim>\<open>ITOG_REVIEW\<close>.\<close>

definition handle_itog_response :: "string \<Rightarrow> answer \<Rightarrow> world \<Rightarrow> conv_state outcome" where
  "handle_itog_response user_id ans w =
     (let users = users_file w in
      case map_of users user_id of
        None \<Rightarrow> reply_and_return user_id users ItogNotActive MAIN_MENU w
      | Some user \<Rightarrow>
          (case itog_state user of
             None \<Rightarrow> reply_and_return user_id users ItogNotActive MAIN_MENU w
           | Some state \<Rightarrow>
               let ps = itog_plans state in
               if ps = [] then
                 let users1 = AList.update user_id (user\<lparr>itog_state := None\<rparr>) users
                 in reply_and_return user_id users1 ItogNoPlans MAIN_MENU
                      (w\<lparr>users_file := users1\<rparr>)
               else
                 let ci = current_index state in
                 if ci \<ge> int (length ps) then
                   finish_itog user_id users user state ItogAllDone WhatNext w
                 else
                   let state1 = (if ans = Da
                                 then state\<lparr>completed := py_list_of_set (ci # completed state)\<rparr>
                                 else state);
                       state2 = state1\<lparr>current_index := ci + 1\<rparr>
                   in
                   if current_index state2 \<ge> int (length ps) then
                     finish_itog user_id users user state2
                       (ItogDone (length (completed state2)) (length ps)) BackToMenu w
                   else
                     (case py_index ps (current_index state2) of
                        Inl e \<Rightarrow> Inl (e, w)
                      | Inr next_plan \<Rightarrow>
                          (case send_message w user_id
                                  (ItogQuestion next_plan (current_index state2)) of
                             Inl e \<Rightarrow> Inl (e, w)
                           | Inr (qid, w1) \<Rightarrow>
                               let state3 = state2\<lparr>question_message_id := qid\<rparr>;
                                   user1 = user\<lparr>itog_state := Some state3\<rparr>
                               in Inr (ITOG_REVIEW,
                                       w1\<lparr>users_file :=
                                            AList.update user_id user1 users\<rparr>)))))"

text \<open>The world a handler leaves behind, whether it returned or raised.\<close>

definition world_of :: "'a outcome \<Rightarrow> world" where
  "world_of r = (case r of Inl (e, w) \<Rightarrow> w | Inr (x, w) \<Rightarrow> w)"

text \<open>The saved plan of a user for a day, and the saved review session of a user.\<close>

definition plans_in :: "world \<Rightarrow> string \<Rightarrow> weekday \<Rightarrow> plan list" where
  "plans_in w user_id d =
     (case map_of (users_file w) user_id of None \<Rightarrow> [] | Some u \<Rightarrow> day_plans_of u d)"

definition itog_in :: "world \<Rightarrow> string \<Rightarrow> itog_state option" where
  "itog_in w user_id =
     (case map_of (users_file w) user_id of None \<Rightarrow> None | Some u \<Rightarrow> itog_state u)"

subsection \<open>What the specification says about the review\<close>

text \<open>
  The specification's reading of "remove exactly the completed indices": the list without
  the entries at the positions in \<open>D\<close>, whatever their text.
\<close>

definition remove_positions :: "int set \<Rightarrow> 'a list \<Rightarrow> 'a list" where
  "remove_positions D xs = nths xs {i. int i \<notin> D}"

text \<open>The two invariants of a review session, as the specification states them.\<close>

definition itog_invariant :: "itog_state \<Rightarrow> bool" where
  "itog_invariant st =
     (0 \<le> current_index st \<and> current_index st \<le> int (length (itog_plans st)) \<and>
      (\<forall>i \<in> set (completed st). 0 \<le> i \<and> i < int (length (itog_plans st))))"

text \<open>
  The worlds a user's review can be in: any world in which the user has no session, and
  whatever \<^verbatim>\<open>/itog\<close> and the answers make of it, at any time and with any answer,
  also when a handler raises half way.
\<close>

inductive itog_reachable :: "string \<Rightarrow> world \<Rightarrow> bool" for user_id :: string where
  idle: "(\<forall>user. map_of (users_file w) user_id = Some user \<longrightarrow> itog_state user = None)
           \<Longrightarrow> itog_reachable user_id w"
| command: "itog_reachable user_id w
           \<Longrightarrow> itog_reachable user_id (world_of (start_itog clk user_id w))"
| response: "itog_reachable user_id w
           \<Longrightarrow> itog_reachable user_id (world_of (handle_itog_response user_id ans w))"

text \<open>
  What holds of every saved session, and is stronger than the two invariants: the index
  is inside the snapshot (a session that reaches the end is cleared, not saved), and the
  completed positions are positions already asked.
\<close>

definition session_ok :: "itog_state \<Rightarrow> bool" where
  "session_ok st =
     (0 \<le> current_index st \<and> current_index st < int (length (itog_plans st)) \<and>
      (\<forall>i \<in> set (completed st). 0 \<le> i \<and> i < current_index st))"

definition users_ok :: "string \<Rightarrow> (string \<times> user_data) list \<Rightarrow> bool" where
  "users_ok user_id users =
     (\<forall>user st. map_of users user_id = Some user \<longrightarrow> itog_state user = Some st
        \<longrightarrow> session_ok st)"

section \<open>The notification scheduler\<close>

text \<open>
  \<^verbatim>\<open>f"{n:02d}"\<close> for a number that is not negative: the decimal digits, with a zero in
  front of a single digit.
\<close>

definition digit_char :: "nat \<Rightarrow> char" where
  "digit_char d = ''0123456789'' ! d"

fun decimal :: "nat \<Rightarrow> string" where
  "decimal n = (if n < 10 then [digit_char n] else decimal (n div 10) @ [digit_char (n mod 10)])"

declare decimal.simps [simp del]

definition fmt02 :: "nat \<Rightarrow> string" where
  "fmt02 n = (if n < 10 then CHR ''0'' # decimal n else decimal n)"

text \<open>\<^verbatim>\<open>user_data.get('notification_time') or '09:00'\<close>: absent, null and empty give the default.\<close>

definition effective_notification_time :: "user_data \<Rightarrow> string" where
  "effective_notification_time user_data =
     (case notification_time user_data of
        None \<Rightarrow> ''09:00''
      | Some t \<Rightarrow> if t = [] then ''09:00'' else t)"

text \<open>\<^verbatim>\<open>f"{user_now.hour:02d}:{user_now.minute:02d}"\<close>\<close>

definition current_time_of :: "local_time \<Rightarrow> string" where
  "current_time_of user_now = fmt02 (lt_hour user_now) @ '':'' @ fmt02 (lt_minute user_now)"

text \<open>\<^verbatim>\<open>f"sent_{today_key}_{plan['time']}_{plan.get('text','')}"\<close>\<close>

definition sent_key :: "string \<Rightarrow> string \<Rightarrow> string \<Rightarrow> string" where
  "sent_key today_key time txt = ''sent_'' @ today_key @ ''_'' @ time @ ''_'' @ txt"

text \<open>
  \<^verbatim>\<open>send_daily_notification\<close>. The whole body is inside \<^verbatim>\<open>try ... except Exception\<close>, so
  a missing \<^verbatim>\<open>plans\<close> key and a failed delivery both end the function with the world
  as it was. It reads the file again, and writes the id of the message to the file.
\<close>

definition send_daily_notification :: "clock \<Rightarrow> string \<Rightarrow> world \<Rightarrow> world" where
  "send_daily_notification clk user_id w =
     (let users = users_file w; global_plans = global_plans_file w in
      case map_of users user_id of
        None \<Rightarrow> w
      | Some user_data \<Rightarrow>
          let today_name = lt_weekday (get_user_now clk user_data) in
          (case plans user_data of
             None \<Rightarrow> w
           | Some p \<Rightarrow>
               let ps = (case p today_name of None \<Rightarrow> [] | Some l \<Rightarrow> l);
                   user_global = (case map_of global_plans user_id of None \<Rightarrow> [] | Some g \<Rightarrow> g)
               in (case send_message w user_id (MorningBrief today_name ps user_global) of
                     Inl e \<Rightarrow> w
                   | Inr (mid, w1) \<Rightarrow>
                       w1\<lparr>users_file :=
                            AList.update user_id (user_data\<lparr>last_message_id := Some mid\<rparr>) users\<rparr>)))"

text \<open>\<^verbatim>\<open>send_daily_summary\<close>, with the same \<^verbatim>\<open>try ... except Exception\<close> around the body.\<close>

definition send_daily_summary :: "clock \<Rightarrow> string \<Rightarrow> world \<Rightarrow> world" where
  "send_daily_summary clk user_id w =
     (let users = users_file w in
      case map_of users user_id of
        None \<Rightarrow> w
      | Some user_data \<Rightarrow>
          let today = get_user_now clk user_data;
              dname = lt_weekday today;
              date_text = lt_dmy today;
              ps = day_plans_of user_data dname
          in (case send_message w user_id (Summary date_text dname ps) of
                Inl e \<Rightarrow> w
              | Inr (mid, w1) \<Rightarrow>
                  w1\<lparr>users_file :=
                       AList.update user_id
                         (user_data\<lparr>last_summary_date := Some (lt_ymd today)\<rparr>) users\<rparr>))"

text \<open>
  The loop over today's plan in \<^verbatim>\<open>notification_scheduler\<close> (the per-item reminders).
  \<open>user_data\<close> is the profile the loop works on and \<open>users\<close> the dictionary the tick
  loaded; the profile is an entry of the dictionary, so a change of the one is a change of
  the other. \<^verbatim>\<open>bot.send_message\<close> is not guarded here: if it raises, the loop ends with
  the error.
\<close>

fun send_reminders ::
  "string \<Rightarrow> string \<Rightarrow> string \<Rightarrow> plan list \<Rightarrow> user_data \<Rightarrow> (string \<times> user_data) list \<Rightarrow> world
     \<Rightarrow> (user_data \<times> (string \<times> user_data) list) outcome" where
  "send_reminders user_id today_key current_time [] user_data users w =
     Inr ((user_data, users), w)"
| "send_reminders user_id today_key current_time (PlanText s # rest) user_data users w =
     send_reminders user_id today_key current_time rest user_data users w"
| "send_reminders user_id today_key current_time (PlanDict t txt # rest) user_data users w =
     (if t = Some current_time then
        (if sent_flags user_data (sent_key today_key current_time txt) = Some True
         then send_reminders user_id today_key current_time rest user_data users w
         else
           (case send_message w user_id (Reminder current_time txt) of
              Inl e \<Rightarrow> Inl (e, w)
            | Inr (mid, w1) \<Rightarrow>
                let user_data1 = user_data\<lparr>sent_flags :=
                      (sent_flags user_data)(sent_key today_key current_time txt \<mapsto> True)\<rparr>;
                    users1 = AList.update user_id user_data1 users
                in send_reminders user_id today_key current_time rest user_data1 users1
                     (w1\<lparr>users_file := users1\<rparr>)))
      else send_reminders user_id today_key current_time rest user_data users w)"

text \<open>
  The body of the loop over the profiles in \<^verbatim>\<open>notification_scheduler\<close>: the morning
  brief, the reminders, the evening summary. The date of the last summary is also set in
  the dictionary of the tick, whether the summary was delivered or not.
\<close>

definition process_user ::
  "clock \<Rightarrow> string \<Rightarrow> user_data \<Rightarrow> (string \<times> user_data) list \<Rightarrow> world
     \<Rightarrow> ((string \<times> user_data) list) outcome" where
  "process_user clk user_id user_data users w =
     (let user_now = get_user_now clk user_data;
          current_time = current_time_of user_now;
          w1 = (if current_time = effective_notification_time user_data \<and> setup_complete user_data
                then send_daily_notification clk user_id w else w);
          today_name = lt_weekday user_now;
          day_plans = day_plans_of user_data today_name;
          today_key = lt_ymd user_now
      in case send_reminders user_id today_key current_time day_plans user_data users w1 of
           Inl ew \<Rightarrow> Inl ew
         | Inr ((user_data1, users1), w2) \<Rightarrow>
             if current_time = SUMMARY_TIME \<and> setup_complete user_data1
                \<and> last_summary_date user_data1 \<noteq> Some today_key
             then Inr (AList.update user_id
                         (user_data1\<lparr>last_summary_date := Some today_key\<rparr>) users1,
                       send_daily_summary clk user_id w2)
             else Inr (users1, w2))"

text \<open>The loop over \<^verbatim>\<open>users.items()\<close>: it ends at the first error.\<close>

fun tick_users ::
  "clock \<Rightarrow> (string \<times> user_data) list \<Rightarrow> (string \<times> user_data) list \<Rightarrow> world
     \<Rightarrow> ((string \<times> user_data) list) outcome" where
  "tick_users clk [] users w = Inr (users, w)"
| "tick_users clk ((user_id, user_data) # rest) users w =
     (case process_user clk user_id user_data users w of
        Inl ew \<Rightarrow> Inl ew
      | Inr (users1, w1) \<Rightarrow> tick_users clk rest users1 w1)"

text \<open>
  One round of the \<^verbatim>\<open>while True\<close> of \<^verbatim>\<open>notification_scheduler\<close>: load the
  dictionary, run the loop, and on an error log it; either way the round is over and the
  scheduler sleeps. The clock of the round is the argument.
\<close>

definition scheduler_tick :: "clock \<Rightarrow> world \<Rightarrow> world" where
  "scheduler_tick clk w = world_of (tick_users clk (users_file w) (users_file w) w)"

text \<open>The messages delivered between an earlier and a later world.\<close>

definition new_messages :: "world \<Rightarrow> world \<Rightarrow> (string \<times> content) list" where
  "new_messages w w' = drop (length (outbox w)) (outbox w')"

text \<open>
  The texts for which the reminder loop sends a reminder when every delivery succeeds,
  in the order of sending. (A device of the proofs below.)
\<close>

fun due_texts :: "string \<Rightarrow> string \<Rightarrow> (string \<rightharpoonup> bool) \<Rightarrow> plan list \<Rightarrow> string list" where
  "due_texts today_key current_time flags [] = []"
| "due_texts today_key current_time flags (PlanText s # rest) =
     due_texts today_key current_time flags rest"
| "due_texts today_key current_time flags (PlanDict t txt # rest) =
     (if t = Some current_time \<and> flags (sent_key today_key current_time txt) \<noteq> Some True
      then txt # due_texts today_key current_time
                   (flags(sent_key today_key current_time txt \<mapsto> True)) rest
      else due_texts today_key current_time flags rest)"

definition is_summary :: "content \<Rightarrow> bool" where
  "is_summary c = (case c of Summary d n ps \<Rightarrow> True | _ \<Rightarrow> False)"

definition is_brief :: "content \<Rightarrow> bool" where
  "is_brief c = (case c of MorningBrief n ps g \<Rightarrow> True | _ \<Rightarrow> False)"

text \<open>The flags after the keys of the texts \<open>xs\<close> have been set.\<close>

definition marked :: "string \<Rightarrow> string \<Rightarrow> (string \<rightharpoonup> bool) \<Rightarrow> string list \<Rightarrow> (string \<rightharpoonup> bool)" where
  "marked today_key t flags xs =
     (\<lambda>k. if k \<in> sent_key today_key t ` set xs then Some True else flags k)"

text \<open>
  The condition of the evening summary, as the specification words it: the setup is
  complete, the current minute is the fixed summary time, and the date of the last summary
  is not today's date.
\<close>

definition summary_due :: "clock \<Rightarrow> user_data \<Rightarrow> bool" where
  "summary_due clk user_data =
     (setup_complete user_data \<and>
      current_time_of (get_user_now clk user_data) = SUMMARY_TIME \<and>
      last_summary_date user_data \<noteq> Some (lt_ymd (get_user_now clk user_data)))"

text \<open>
  The condition of the morning brief in the code: the setup is complete and the current
  minute is the notification time, 09:00 standing in for a missing one.
\<close>

definition brief_due :: "clock \<Rightarrow> user_data \<Rightarrow> bool" where
  "brief_due clk user_data =
     (setup_complete user_data \<and>
      current_time_of (get_user_now clk user_data) = effective_notification_time user_data)"

text \<open>The evening summaries among some messages, and the saved date of a user's last summary.\<close>

definition summaries :: "(string \<times> content) list \<Rightarrow> (string \<times> content) list" where
  "summaries ms = filter (\<lambda>m. is_summary (snd m)) ms"

definition last_summary_date_in :: "world \<Rightarrow> string \<Rightarrow> string option" where
  "last_summary_date_in w user_id =
     (case map_of (users_file w) user_id of None \<Rightarrow> None | Some u \<Rightarrow> last_summary_date u)"

section \<open>Text input: plan lines and the notification time\<close>

text \<open>
  A Python string is modelled as a \<open>string\<close> whose characters are the code points 0
  to 255; the texts with code points above 255 (the Cyrillic labels of the buttons among
  them) are outside the model. For these code points, \<^verbatim>\<open>str.isspace\<close> (which
  \<^verbatim>\<open>strip\<close> and \<^verbatim>\<open>split()\<close> use) holds of twelve characters, \<^verbatim>\<open>str.isdigit\<close> of the
  ten decimal digits and the three superscript digits, and \<^verbatim>\<open>int\<close> reads the decimal
  digits only and trims eight of the twelve space characters.
\<close>

definition isspace :: "char \<Rightarrow> bool" where
  "isspace c = (c \<in> set [CHR 0x09, CHR 0x0A, CHR 0x0B, CHR 0x0C, CHR 0x0D, CHR 0x1C, CHR 0x1D,
                          CHR 0x1E, CHR 0x1F, CHR 0x20, CHR 0x85, CHR 0xA0])"

definition int_space :: "char \<Rightarrow> bool" where
  "int_space c = (c \<in> set [CHR 0x09, CHR 0x0A, CHR 0x0B, CHR 0x0C, CHR 0x0D, CHR 0x20,
                            CHR 0x85, CHR 0xA0])"

definition is_decimal :: "char \<Rightarrow> bool" where
  "is_decimal c = (c \<in> set ''0123456789'')"

definition isdigit :: "char \<Rightarrow> bool" where
  "isdigit c = (is_decimal c \<or> c \<in> set [CHR 0xB2, CHR 0xB3, CHR 0xB9])"

text \<open>\<^verbatim>\<open>s.isdigit()\<close>: every character is a digit, and there is one.\<close>

definition str_isdigit :: "string \<Rightarrow> bool" where
  "str_isdigit s = (s \<noteq> [] \<and> list_all isdigit s)"

definition digit_value :: "char \<Rightarrow> int" where
  "digit_value c = int (of_char c) - 48"

text \<open>\<^verbatim>\<open>s.strip()\<close>\<close>

definition strip :: "string \<Rightarrow> string" where
  "strip s = rev (dropWhile isspace (rev (dropWhile isspace s)))"

text \<open>\<^verbatim>\<open>s.split(sep)\<close> for a separator of one character: at least one part, empty parts kept.\<close>

fun split_on :: "char \<Rightarrow> string \<Rightarrow> string list" where
  "split_on sep [] = [[]]"
| "split_on sep (c # cs) =
     (if c = sep then [] # split_on sep cs
      else (case split_on sep cs of [] \<Rightarrow> [[c]] | p # ps \<Rightarrow> (c # p) # ps))"

text \<open>
  \<^verbatim>\<open>s.split(maxsplit=1)\<close>: the first word, and the rest without the space in front of
  it, if there is a rest; no part at all for a string of spaces.
\<close>

definition split_maxsplit1 :: "string \<Rightarrow> string list" where
  "split_maxsplit1 s =
     (let s1 = dropWhile isspace s in
      if s1 = [] then []
      else
        let first = takeWhile (\<lambda>c. \<not> isspace c) s1;
            rest = dropWhile isspace (dropWhile (\<lambda>c. \<not> isspace c) s1)
        in if rest = [] then [first] else [first, rest])"

text \<open>
  \<^verbatim>\<open>int(s)\<close>, base ten: spaces around the number are dropped, a sign may come first,
  and the digits may be separated by single underscores. \<open>None\<close> is the ValueError.
\<close>

fun digits_acc :: "int \<Rightarrow> string \<Rightarrow> int option" where
  "digits_acc a [] = Some a"
| "digits_acc a [c] = (if is_decimal c then Some (10 * a + digit_value c) else None)"
| "digits_acc a (c # d # r) =
     (if is_decimal c then digits_acc (10 * a + digit_value c) (d # r)
      else if c = CHR ''_'' \<and> is_decimal d then digits_acc a (d # r)
      else None)"

definition py_digits :: "string \<Rightarrow> int option" where
  "py_digits s = (case s of [] \<Rightarrow> None | c # r \<Rightarrow> if is_decimal c then digits_acc 0 s else None)"

definition py_int :: "string \<Rightarrow> int option" where
  "py_int s =
     (case rev (dropWhile int_space (rev (dropWhile int_space s))) of
        [] \<Rightarrow> None
      | c # r \<Rightarrow>
          if c = CHR ''-'' then map_option uminus (py_digits r)
          else if c = CHR ''+'' then py_digits r
          else py_digits (c # r))"

subsection \<open>Entering the plans of a day\<close>

text \<open>The test of \<^verbatim>\<open>enter_plans\<close> on the first word of an item.\<close>

definition time_shaped :: "string \<Rightarrow> bool" where
  "time_shaped p =
     (length p = 5 \<and> p ! 2 = CHR '':'' \<and> str_isdigit (take 2 p) \<and> str_isdigit (drop 3 p))"

text \<open>
  The body of the loop over the items in \<^verbatim>\<open>enter_plans\<close>. \<^verbatim>\<open>int\<close> is called on two
  characters that \<^verbatim>\<open>isdigit\<close> accepts; it raises for a superscript digit, and nothing
  catches that.
\<close>

definition parse_item :: "string \<Rightarrow> error + plan" where
  "parse_item item =
     (let parts = split_maxsplit1 item in
      if length parts = 2 \<and> time_shaped (parts ! 0) then
        (case py_int (take 2 (parts ! 0)) of
           None \<Rightarrow> Inl ValueError
         | Some hh \<Rightarrow>
             (case py_int (drop 3 (parts ! 0)) of
                None \<Rightarrow> Inl ValueError
              | Some mm \<Rightarrow>
                  if 0 \<le> hh \<and> hh \<le> 23 \<and> 0 \<le> mm \<and> mm \<le> 59
                  then Inr (PlanDict (Some (parts ! 0)) (parts ! 1))
                  else Inr (PlanDict None item)))
      else Inr (PlanDict None item))"

fun parse_items :: "string list \<Rightarrow> error + plan list" where
  "parse_items [] = Inr []"
| "parse_items (item # rest) =
     (case parse_item item of
        Inl e \<Rightarrow> Inl e
      | Inr p \<Rightarrow> (case parse_items rest of Inl e \<Rightarrow> Inl e | Inr ps \<Rightarrow> Inr (p # ps)))"

text \<open>
  What \<^verbatim>\<open>enter_plans\<close> stores as \<^verbatim>\<open>current_plans\<close> for a message text of the model
  (such a text is neither of the two button labels): the text is stripped, split at the
  semicolons, the parts are stripped and the empty ones dropped, and each is parsed.
\<close>

definition enter_plans :: "string \<Rightarrow> error + plan list" where
  "enter_plans message_text =
     (let raw_items = filter (\<lambda>item. item \<noteq> [])
                        (map strip (split_on CHR '';'' (strip message_text)))
      in parse_items raw_items)"

subsection \<open>The notification time\<close>

text \<open>
  The checks at the start of the \<^verbatim>\<open>try\<close> block of \<^verbatim>\<open>handle_time_input\<close>, on the
  stripped text: two parts around one colon, both read by \<^verbatim>\<open>int\<close>, both in range; the
  result is the time as it will be stored.
\<close>

definition parse_time_text :: "string \<Rightarrow> error + string" where
  "parse_time_text txt =
     (case split_on CHR '':'' txt of
        [p0, p1] \<Rightarrow>
          (case py_int p0 of
             None \<Rightarrow> Inl ValueError
           | Some hour \<Rightarrow>
               (case py_int p1 of
                  None \<Rightarrow> Inl ValueError
                | Some minute \<Rightarrow>
                    if 0 \<le> hour \<and> hour \<le> 23 \<and> 0 \<le> minute \<and> minute \<le> 59
                    then Inr (fmt02 (nat hour) @ '':'' @ fmt02 (nat minute))
                    else Inl ValueError))
      | _ \<Rightarrow> Inl ValueError)"

text \<open>
  \<^verbatim>\<open>handle_time_input\<close>. The flag \<^verbatim>\<open>waiting_for_time\<close> of the session is an argument,
  and its new value is the first component of the result. A ValueError of the checks is
  caught and answered with the error text; a missing profile (KeyError) and a failed
  delivery are not caught.
\<close>

definition handle_time_input ::
  "string \<Rightarrow> string \<Rightarrow> bool \<Rightarrow> world \<Rightarrow> bool \<times> conv_state outcome" where
  "handle_time_input user_id message_text waiting_for_time w =
     (let users = users_file w; txt = strip message_text in
      if waiting_for_time then
        (case parse_time_text txt of
           Inr t \<Rightarrow>
             (case map_of users user_id of
                None \<Rightarrow> (True, Inl (KeyError, w))
              | Some user \<Rightarrow>
                  let user1 = user\<lparr>notification_time := Some t\<rparr>;
                      users1 = AList.update user_id user1 users
                  in (False,
                      reply_and_return user_id users1 (TimeSaved t (get_user_timezone user1))
                        MAIN_MENU (w\<lparr>users_file := users1\<rparr>)))
         | Inl e \<Rightarrow> (True, reply_and_return user_id users TimeError MAIN_MENU w))
      else (False, reply_and_return user_id users MainMenuText MAIN_MENU w))"

subsection \<open>What the specification says about the two inputs\<close>

text \<open>
  A valid time in the specification's words: exactly five characters, a colon at
  position 2, both halves decimal digits, the hour at most 23 and the minute at most 59.
\<close>

definition valid_hhmm :: "string \<Rightarrow> bool" where
  "valid_hhmm t =
     (case t of
        [a, b, c, d, e] \<Rightarrow>
          c = CHR '':'' \<and> is_decimal a \<and> is_decimal b \<and> is_decimal d \<and> is_decimal e \<and>
          10 * digit_value a + digit_value b \<le> 23 \<and> 10 * digit_value d + digit_value e \<le> 59
      | _ \<Rightarrow> False)"







text \<open>The saved notification time of a user.\<close>

definition notification_time_in :: "world \<Rightarrow> string \<Rightarrow> string option" where
  "notification_time_in w user_id =
     (case map_of (users_file w) user_id of None \<Rightarrow> None | Some u \<Rightarrow> notification_time u)"

text \<open>
  What it takes for a stripped text to be accepted as a time: it is \<open>p0\<close>, a colon and
  \<open>p1\<close> with no further colon, \<^verbatim>\<open>int\<close> reads \<open>p0\<close> as \<open>hour\<close> and \<open>p1\<close> as \<open>minute\<close>,
  and both are in range.
\<close>

definition accepted_as :: "string \<Rightarrow> string \<Rightarrow> string \<Rightarrow> int \<Rightarrow> int \<Rightarrow> bool" where
  "accepted_as s p0 p1 hour minute =
     (s = p0 @ '':'' @ p1 \<and> CHR '':'' \<notin> set p0 \<and> CHR '':'' \<notin> set p1 \<and>
      py_int p0 = Some hour \<and> py_int p1 = Some minute \<and>
      0 \<le> hour \<and> hour \<le> 23 \<and> 0 \<le> minute \<and> minute \<le> 59)"

section \<open>Worlds used as examples\<close>

definition monday_at :: "nat \<Rightarrow> nat \<Rightarrow> clock" where
  "monday_at h m tz = \<lparr> lt_weekday = Monday, lt_ymd = ''2025-05-12'', lt_dmy = ''12.05.2025'',
                        lt_hour = h, lt_minute = m \<rparr>"

definition profile_with :: "plan list \<Rightarrow> user_data" where
  "profile_with ps =
     empty_user\<lparr>plans := Some (Map.empty(Monday \<mapsto> ps)), setup_complete := True\<rparr>"

definition world_with :: "(string \<times> user_data) list \<Rightarrow> string list \<Rightarrow> world" where
  "world_with us bl = \<lparr> users_file = us, global_plans_file = [], outbox = [],
                        next_message_id = 1, blocked = bl \<rparr>"

text \<open>A review of the plan A, B in which A has been answered with yes.\<close>

definition session_AB :: itog_state where
  "session_AB = \<lparr> itog_date = ''12.05.2025'', day_name = Monday,
       itog_plans = [PlanDict None ''A'', PlanDict None ''B''], current_index = 1,
       completed = [0], list_message_id = 1, question_message_id = 3 \<rparr>"

definition review_world :: world where
  "review_world = world_with
     [(''7'', (profile_with [PlanDict None ''A'', PlanDict None ''B''])
                \<lparr>itog_state := Some session_AB\<rparr>)] []"

text \<open>The same review, after the user has added an entry C to the day's plan.\<close>

definition edited_world :: world where
  "edited_world = world_with
     [(''7'', (profile_with [PlanDict None ''A'', PlanDict None ''B'', PlanDict None ''C''])
                \<lparr>itog_state := Some session_AB\<rparr>)] []"

text \<open>What a handler returned, if it returned.\<close>

definition returned :: "'a outcome \<Rightarrow> 'a option" where
  "returned r = (case r of Inl ew \<Rightarrow> None | Inr (x, w) \<Rightarrow> Some x)"

definition fresh_world :: "plan list \<Rightarrow> world" where
  "fresh_world ps = world_with [(''7'', profile_with ps)] []"

text \<open>Two users who both have an entry for 08:00 on Monday.\<close>

definition two_users :: "(string \<times> user_data) list" where
  "two_users = [(''1'', profile_with [PlanDict (Some ''08:00'') ''run'']),
                (''2'', profile_with [PlanDict (Some ''08:00'') ''read''])]"

text \<open>An entry for 08:00, a user who has it in Monday's plan, and the state after the reminder.\<close>

definition run_item :: plan where
  "run_item = PlanDict (Some ''08:00'') ''run''"

definition reminded_profile :: user_data where
  "reminded_profile = (profile_with [run_item])
     \<lparr>sent_flags := Map.empty(sent_key ''2025-05-12'' ''08:00'' ''run'' \<mapsto> True)\<rparr>"

definition reminded_world :: world where
  "reminded_world = \<lparr> users_file = [(''7'', reminded_profile)], global_plans_file = [],
       outbox = [(''7'', Reminder ''08:00'' ''run'')], next_message_id = 2, blocked = [] \<rparr>"

text \<open>
  Two users at the summary time: the first has an entry for 23:59, the second has an
  empty plan; both have completed the setup and have had no summary yet.
\<close>

definition late_users :: "(string \<times> user_data) list" where
  "late_users = [(''1'', profile_with [PlanDict (Some ''23:59'') ''sleep'']),
                 (''2'', profile_with [])]"


section \<open>Properties of the evening review\<close>

lemma enum_filter_aux:
  "length js = length xs \<Longrightarrow>
   map snd (filter (\<lambda>(idx, p). idx \<notin> D) (zip (map int js) xs)) =
   map fst (filter (\<lambda>p. snd p \<in> {i. int i \<notin> D}) (zip xs js))"
proof (induction xs arbitrary: js)
  case Nil
  then show ?case by simp
next
  case (Cons x xs)
  then obtain j js' where "js = j # js'" by (cases js) auto
  with Cons show ?case by simp
qed

lemma py_enumerate_filter_nths:
  "map snd (filter (\<lambda>(idx, p). idx \<notin> D) (py_enumerate xs)) = nths xs {i. int i \<notin> D}"
  by (simp add: py_enumerate_def nths_def enum_filter_aux)

lemma apply_itog_day:
  "day_plans_of (apply_itog_results_to_plans user state) (day_name state) =
     (if itog_plans state = [] \<or> set (completed state) = {} then day_plans_of user (day_name state)
      else nths (itog_plans state) {i. int i \<notin> set (completed state)})"
  by (simp add: apply_itog_results_to_plans_def day_plans_of_def Let_def py_enumerate_filter_nths)

lemma send_and_replace_ok:
  "user_id \<notin> set (blocked w) \<Longrightarrow>
   send_and_replace user_id users c w =
     Inr (w\<lparr>outbox := outbox w @ [(user_id, c)],
            next_message_id := Suc (next_message_id w),
            users_file := AList.update user_id
               ((case map_of users user_id of None \<Rightarrow> empty_user | Some u \<Rightarrow> u)
                  \<lparr>last_bot_message_id := Some (next_message_id w),
                   last_bot_message_chat_id := Some user_id\<rparr>) users\<rparr>)"
  by (simp add: send_and_replace_def send_message_def)

lemma finish_itog_result:
  assumes "user_id \<notin> set (blocked w)"
  shows "\<exists>w' u'. finish_itog user_id users user state c1 c2 w = Inr (MAIN_MENU, w') \<and>
            map_of (users_file w') user_id = Some u' \<and> itog_state u' = None \<and>
            plans u' = plans (apply_itog_results_to_plans user state) \<and>
            outbox w' = outbox w @ [(user_id, c1), (user_id, c2)]"
  using assms
  by (simp add: finish_itog_def reply_twice_and_return_def reply_and_return_def
      send_and_replace_ok Let_def update_conv')


lemma users_ok_update:
  "(\<And>st. itog_state u = Some st \<Longrightarrow> session_ok st) \<Longrightarrow> users_ok user_id (AList.update user_id u users)"
  by (simp add: users_ok_def update_conv')

lemma send_and_replace_users_ok:
  assumes "users_ok user_id users" "users_ok user_id (users_file w)"
  shows "case send_and_replace user_id users c w of
           Inl (e, w') \<Rightarrow> w' = w
         | Inr w' \<Rightarrow> users_ok user_id (users_file w')"
proof (cases "user_id \<in> set (blocked w)")
  case True
  then show ?thesis by (simp add: send_and_replace_def send_message_def)
next
  case False
  have "\<And>st. itog_state ((case map_of users user_id of None \<Rightarrow> empty_user | Some u \<Rightarrow> u)
                  \<lparr>last_bot_message_id := Some (next_message_id w),
                   last_bot_message_chat_id := Some user_id\<rparr>) = Some st \<Longrightarrow> session_ok st"
    using assms(1) by (auto simp: users_ok_def empty_user_def split: option.splits)
  with False show ?thesis
    by (auto simp: send_and_replace_ok intro!: users_ok_update)
qed

lemma reply_and_return_users_ok:
  assumes "users_ok user_id users" "users_ok user_id (users_file w)"
  shows "users_ok user_id (users_file (world_of (reply_and_return user_id users c st w)))"
  using send_and_replace_users_ok[OF assms, of c] assms(2)
  by (auto simp: reply_and_return_def world_of_def split: sum.splits)

lemma reply_twice_users_ok:
  assumes "users_ok user_id users" "users_ok user_id (users_file w)"
  shows "users_ok user_id (users_file (world_of (reply_twice_and_return user_id users c1 c2 st w)))"
proof (cases "send_and_replace user_id users c1 w")
  case (Inl ew)
  with send_and_replace_users_ok[OF assms, of c1] assms(2) show ?thesis
    by (auto simp: reply_twice_and_return_def world_of_def)
next
  case (Inr w1)
  with send_and_replace_users_ok[OF assms, of c1] have ok: "users_ok user_id (users_file w1)"
    by simp
  from Inr show ?thesis
    using reply_and_return_users_ok[OF ok ok, of c2 st]
    by (simp add: reply_twice_and_return_def)
qed

lemma finish_itog_users_ok:
  "users_ok user_id (users_file (world_of (finish_itog user_id users user state c1 c2 w)))"
  unfolding finish_itog_def Let_def
  by (rule reply_twice_users_ok) (auto intro!: users_ok_update)

lemma start_itog_users_ok:
  assumes "users_ok user_id (users_file w)"
  shows "users_ok user_id (users_file (world_of (start_itog clk user_id w)))"
proof (cases "map_of (users_file w) user_id")
  case None
  then show ?thesis
    using reply_and_return_users_ok[OF assms assms]
    by (simp add: start_itog_def)
next
  case (Some user)
  show ?thesis
  proof (cases "day_plans_of user (lt_weekday (get_user_now clk user)) = []")
    case True
    with Some show ?thesis
      using reply_and_return_users_ok[OF assms assms]
      by (simp add: start_itog_def Let_def)
  next
    case False
    with Some assms show ?thesis
      by (auto simp: start_itog_def Let_def send_message_def world_of_def
          session_ok_def intro!: users_ok_update)
  qed
qed


lemma set_py_list_of_set: "set (py_list_of_set xs) = set xs"
  by (simp add: py_list_of_set_def)

lemma handle_itog_response_users_ok:
  assumes ok: "users_ok user_id (users_file w)"
  shows "users_ok user_id (users_file (world_of (handle_itog_response user_id ans w)))"
proof (cases "map_of (users_file w) user_id")
  case None
  then show ?thesis
    using reply_and_return_users_ok[OF ok ok] by (simp add: handle_itog_response_def)
next
  case (Some user)
  note user = this
  show ?thesis
  proof (cases "itog_state user")
    case None
    with user show ?thesis
      using reply_and_return_users_ok[OF ok ok] by (simp add: handle_itog_response_def)
  next
    case (Some state)
    note state = this
    from ok user state have sok: "session_ok state" by (simp add: users_ok_def)
    let ?n = "int (length (itog_plans state))"
    let ?ci = "current_index state"
    let ?state1 = "if ans = Da then state\<lparr>completed := py_list_of_set (?ci # completed state)\<rparr>
                   else state"
    let ?state2 = "?state1\<lparr>current_index := ?ci + 1\<rparr>"
    from sok have nonempty: "itog_plans state \<noteq> []" and lt: "\<not> ?n \<le> ?ci"
      by (auto simp: session_ok_def)
    show ?thesis
    proof (cases "?n \<le> ?ci + 1")
      case True
      with user state nonempty lt show ?thesis
        using finish_itog_users_ok[of user_id "users_file w" user ?state2]
        by (simp add: handle_itog_response_def Let_def)
    next
      case False
      have ok3: "session_ok (?state2\<lparr>question_message_id := q\<rparr>)" for q
        using sok False by (auto simp: session_ok_def set_py_list_of_set)
      have "users_ok user_id (AList.update user_id
               (user\<lparr>itog_state := Some (?state2\<lparr>question_message_id := q\<rparr>)\<rparr>) (users_file w))" for q
        using ok3[of q] by (auto intro!: users_ok_update)
      with user state nonempty lt False ok show ?thesis
        by (auto simp: handle_itog_response_def Let_def world_of_def send_message_def
            split: sum.splits)
    qed
  qed
qed

lemma itog_reachable_users_ok:
  "itog_reachable user_id w \<Longrightarrow> users_ok user_id (users_file w)"
proof (induction rule: itog_reachable.induct)
  case (idle w)
  then show ?case by (simp add: users_ok_def)
next
  case (command w clk)
  then show ?case by (simp add: start_itog_users_ok)
next
  case (response w ans)
  then show ?case by (simp add: handle_itog_response_users_ok)
qed

text \<open>
  Claim C8. Every session that \<^verbatim>\<open>/itog\<close> and the answers can leave in the file satisfies
  the two invariants of the specification: the index is between 0 and the length of the
  snapshot, and every completed position is a position of the snapshot. The index of a
  saved session is never the length itself: a session that reaches the end is cleared.
\<close>

theorem itog_session_invariant:
  assumes "itog_reachable user_id w"
    and "map_of (users_file w) user_id = Some user"
    and "itog_state user = Some st"
  shows "itog_invariant st \<and> current_index st \<noteq> int (length (itog_plans st))"
proof -
  from assms have "session_ok st"
    using itog_reachable_users_ok[of user_id w] by (simp add: users_ok_def)
  then show ?thesis
    by (auto simp: session_ok_def itog_invariant_def)
qed

text \<open>
  What the handler does at the end of a session. When the answer to the last question
  arrives (or the index is already past the end) and the user can be reached, the handler
  returns to the main menu, clears the session, and leaves as the plan of the session's
  day: the live plan as it was when no position is completed, else the snapshot without
  the completed positions (by position, whatever the texts). Only when the live plan
  still equals the snapshot is this the live plan without the completed positions.
\<close>

theorem itog_finish_applies_snapshot:
  assumes user: "map_of (users_file w) user_id = Some user"
    and state: "itog_state user = Some state"
    and nonempty: "itog_plans state \<noteq> []"
    and last: "int (length (itog_plans state)) \<le> current_index state + 1"
    and reach: "user_id \<notin> set (blocked w)"
  shows "\<exists>w' user'.
           handle_itog_response user_id ans w = Inr (MAIN_MENU, w') \<and>
           map_of (users_file w') user_id = Some user' \<and> itog_state user' = None \<and>
           (let D = (if current_index state < int (length (itog_plans state)) \<and> ans = Da
                     then insert (current_index state) (set (completed state))
                     else set (completed state))
            in day_plans_of user' (day_name state) =
                 (if D = {} then day_plans_of user (day_name state)
                  else remove_positions D (itog_plans state)) \<and>
               (day_plans_of user (day_name state) = itog_plans state \<longrightarrow>
                  day_plans_of user' (day_name state) =
                    remove_positions D (day_plans_of user (day_name state))))"
proof -
  let ?n = "int (length (itog_plans state))"
  let ?ci = "current_index state"
  let ?state1 = "if ans = Da then state\<lparr>completed := py_list_of_set (?ci # completed state)\<rparr>
                 else state"
  let ?state2 = "?state1\<lparr>current_index := ?ci + 1\<rparr>"
  let ?fin = "if ?n \<le> ?ci then state else ?state2"
  let ?c1 = "if ?n \<le> ?ci then ItogAllDone else ItogDone (length (completed ?state2)) (length (itog_plans state))"
  let ?c2 = "if ?n \<le> ?ci then WhatNext else BackToMenu"
  have eq: "handle_itog_response user_id ans w =
              finish_itog user_id (users_file w) user ?fin ?c1 ?c2 w"
    using user state nonempty last by (simp add: handle_itog_response_def Let_def)
  from finish_itog_result[OF reach, of "users_file w" user ?fin ?c1 ?c2]
  obtain w' u' where fin: "finish_itog user_id (users_file w) user ?fin ?c1 ?c2 w = Inr (MAIN_MENU, w')"
    and u': "map_of (users_file w') user_id = Some u'" "itog_state u' = None"
    and pl: "plans u' = plans (apply_itog_results_to_plans user ?fin)"
    by blast
  have dp: "day_plans_of u' d = day_plans_of (apply_itog_results_to_plans user ?fin) d" for d
    using pl by (simp add: day_plans_of_def)
  have dn: "day_name ?fin = day_name state" and ip: "itog_plans ?fin = itog_plans state"
    by simp_all
  have cs: "set (completed ?fin) =
        (if ?ci < ?n \<and> ans = Da then insert ?ci (set (completed state)) else set (completed state))"
    by (auto simp: set_py_list_of_set)
  have "day_plans_of u' (day_name state) =
          (if set (completed ?fin) = {} then day_plans_of user (day_name state)
           else nths (itog_plans state) {i. int i \<notin> set (completed ?fin)})"
    using apply_itog_day[of user ?fin] nonempty unfolding dp dn ip by simp
  then have main: "day_plans_of u' (day_name state) =
          (let D = (if ?ci < ?n \<and> ans = Da then insert ?ci (set (completed state)) else set (completed state))
           in if D = {} then day_plans_of user (day_name state)
              else nths (itog_plans state) {i. int i \<notin> D})"
    unfolding cs Let_def .
  show ?thesis
    apply (rule exI[of _ w'], rule exI[of _ u'])
    using eq fin u' main by (auto simp: Let_def nths_all remove_positions_def)
qed


text \<open>
  Claim C4 fails on the code. The function that applies the results writes the snapshot
  without the completed positions over the plan of the day and never reads the live plan.
  With the snapshot A, B, position 0 completed and the live plan A, B, C (C was added
  after the review began), the answer to the last question leaves the plan B: the entry
  C, which was never completed, is gone. The live plan without position 0 is B, C.
\<close>

theorem itog_finish_live_plan_counterexample:
  "plans_in (world_of (handle_itog_response ''7'' Net edited_world)) ''7'' Monday
     = [PlanDict None ''B''] \<and>
   remove_positions (set (completed session_AB)) (plans_in edited_world ''7'' Monday)
     = [PlanDict None ''B'', PlanDict None ''C'']"
  by (simp add: handle_itog_response_def finish_itog_def reply_twice_and_return_def
      reply_and_return_def send_and_replace_def send_message_def
      apply_itog_results_to_plans_def py_enumerate_def Let_def world_of_def plans_in_def
      day_plans_of_def edited_world_def world_with_def profile_with_def session_AB_def
      empty_user_def remove_positions_def nths_Cons upt_rec)


theorem itog_finish_applies_snapshot_witness:
  "map_of (users_file review_world) ''7'' =
      Some ((profile_with [PlanDict None ''A'', PlanDict None ''B''])\<lparr>itog_state := Some session_AB\<rparr>) \<and>
   itog_plans session_AB \<noteq> [] \<and>
   int (length (itog_plans session_AB)) \<le> current_index session_AB + 1 \<and>
   ''7'' \<notin> set (blocked review_world) \<and>
   plans_in (world_of (handle_itog_response ''7'' Net review_world)) ''7'' Monday = [PlanDict None ''B''] \<and>
   itog_in (world_of (handle_itog_response ''7'' Net review_world)) ''7'' = None"
proof -
  let ?u = "(profile_with [PlanDict None ''A'', PlanDict None ''B''])\<lparr>itog_state := Some session_AB\<rparr>"
  have h1: "map_of (users_file review_world) ''7'' = Some ?u"
    by (simp add: review_world_def world_with_def)
  have h2: "itog_state ?u = Some session_AB" by simp
  have h3: "itog_plans session_AB \<noteq> []" by (simp add: session_AB_def)
  have h4: "int (length (itog_plans session_AB)) \<le> current_index session_AB + 1"
    by (simp add: session_AB_def)
  have h5: "''7'' \<notin> set (blocked review_world)"
    by (simp add: review_world_def world_with_def)
  have dn: "day_name session_AB = Monday" by (simp add: session_AB_def)
  have cs: "set (completed session_AB) = {0}" by (simp add: session_AB_def)
  have ci: "current_index session_AB = 1" by (simp add: session_AB_def)
  have ip: "itog_plans session_AB = [PlanDict None ''A'', PlanDict None ''B'']"
    by (simp add: session_AB_def)
  have rp: "remove_positions {0} [PlanDict None ''A'', PlanDict None ''B''] = [PlanDict None ''B'']"
    by (simp add: remove_positions_def nths_Cons)
  from itog_finish_applies_snapshot[OF h1 h2 h3 h4 h5, of Net]
  obtain w' user' where
    r: "handle_itog_response ''7'' Net review_world = Inr (MAIN_MENU, w')"
    and m: "map_of (users_file w') ''7'' = Some user'" and i: "itog_state user' = None"
    and d: "day_plans_of user' Monday = [PlanDict None ''B'']"
    by (auto simp: Let_def dn cs ip rp)
  show ?thesis
    using h1 h3 h4 h5 r m i d by (simp add: world_of_def plans_in_def itog_in_def)
qed

theorem itog_session_invariant_witness:
  "itog_reachable ''7''
     (world_of (handle_itog_response ''7'' Da
        (world_of (start_itog (monday_at 21 0) ''7''
           (fresh_world [PlanDict None ''A'', PlanDict None ''B'']))))) \<and>
   itog_in (world_of (handle_itog_response ''7'' Da
        (world_of (start_itog (monday_at 21 0) ''7''
           (fresh_world [PlanDict None ''A'', PlanDict None ''B''])))))  ''7'' = Some session_AB \<and>
   itog_invariant session_AB \<and>
   current_index session_AB \<noteq> int (length (itog_plans session_AB))"
proof -
  let ?w0 = "fresh_world [PlanDict None ''A'', PlanDict None ''B'']"
  let ?w2 = "world_of (handle_itog_response ''7'' Da (world_of (start_itog (monday_at 21 0) ''7'' ?w0)))"
  let ?u = "(profile_with [PlanDict None ''A'', PlanDict None ''B''])\<lparr>itog_state := Some session_AB\<rparr>"
  have "itog_reachable ''7'' ?w0"
    by (rule itog_reachable.idle)
       (simp add: fresh_world_def world_with_def profile_with_def empty_user_def)
  then have r: "itog_reachable ''7'' ?w2"
    by (intro itog_reachable.response itog_reachable.command)
  have m: "map_of (users_file ?w2) ''7'' = Some ?u"
    by (simp add: handle_itog_response_def start_itog_def send_message_def py_index_def
        py_list_of_set_def Let_def world_of_def day_plans_of_def get_user_now_def
        monday_at_def fresh_world_def world_with_def profile_with_def empty_user_def
        session_AB_def)
  have s: "itog_state ?u = Some session_AB" by simp
  from itog_session_invariant[OF r m s] show ?thesis
    using r m by (simp add: itog_in_def)
qed

text \<open>
  Claim C9. For a known user whose plan for today is empty, \<^verbatim>\<open>/itog\<close> leaves the saved
  session of the user as it was, whether the reply can be delivered or not; when it can,
  the user is told that there are no entries and the handler returns to the main menu.
  Whenever \<^verbatim>\<open>/itog\<close> does enter the review, the session it saved holds today's plan,
  which is not empty, with index 0 and nothing completed.
\<close>

theorem start_itog_empty_plan_rejected:
  assumes user: "map_of (users_file w) user_id = Some user"
  shows "(day_plans_of user (lt_weekday (get_user_now clk user)) = [] \<longrightarrow>
            itog_in (world_of (start_itog clk user_id w)) user_id = itog_state user \<and>
            (user_id \<notin> set (blocked w) \<longrightarrow>
               (\<exists>w'. start_itog clk user_id w = Inr (MAIN_MENU, w') \<and>
                     outbox w' = outbox w @ [(user_id, NoEntriesToday)]))) \<and>
         (\<forall>w'. start_itog clk user_id w = Inr (ITOG_REVIEW, w') \<longrightarrow>
            (\<exists>s. itog_in w' user_id = Some s \<and>
                 itog_plans s = day_plans_of user (lt_weekday (get_user_now clk user)) \<and>
                 itog_plans s \<noteq> [] \<and> current_index s = 0 \<and> completed s = []))"
proof (intro conjI impI allI)
  assume empty: "day_plans_of user (lt_weekday (get_user_now clk user)) = []"
  then have eq: "start_itog clk user_id w =
      reply_and_return user_id (users_file w) NoEntriesToday MAIN_MENU w"
    using user by (simp add: start_itog_def Let_def)
  show "itog_in (world_of (start_itog clk user_id w)) user_id = itog_state user"
    unfolding eq using user
    by (simp add: reply_and_return_def send_and_replace_def send_message_def world_of_def
        itog_in_def update_conv')
  assume "user_id \<notin> set (blocked w)"
  then show "\<exists>w'. start_itog clk user_id w = Inr (MAIN_MENU, w') \<and>
                  outbox w' = outbox w @ [(user_id, NoEntriesToday)]"
    unfolding eq by (simp add: reply_and_return_def send_and_replace_ok)
next
  fix w'
  assume "start_itog clk user_id w = Inr (ITOG_REVIEW, w')"
  then show "\<exists>s. itog_in w' user_id = Some s \<and>
                 itog_plans s = day_plans_of user (lt_weekday (get_user_now clk user)) \<and>
                 itog_plans s \<noteq> [] \<and> current_index s = 0 \<and> completed s = []"
    using user
    by (auto simp: start_itog_def Let_def reply_and_return_def send_message_def
        itog_in_def update_conv' split: if_splits sum.splits)
qed

theorem start_itog_empty_plan_rejected_witness:
  "map_of (users_file review_world) ''7'' =
      Some ((profile_with [PlanDict None ''A'', PlanDict None ''B''])\<lparr>itog_state := Some session_AB\<rparr>) \<and>
   day_plans_of ((profile_with [PlanDict None ''A'', PlanDict None ''B''])\<lparr>itog_state := Some session_AB\<rparr>)
      Tuesday = [] \<and>
   ''7'' \<notin> set (blocked review_world) \<and>
   itog_in (world_of (start_itog (\<lambda>tz. (monday_at 21 0 tz)\<lparr>lt_weekday := Tuesday\<rparr>) ''7'' review_world))
      ''7'' = Some session_AB \<and>
   outbox (world_of (start_itog (\<lambda>tz. (monday_at 21 0 tz)\<lparr>lt_weekday := Tuesday\<rparr>) ''7'' review_world))
     = [(''7'', NoEntriesToday)] \<and>
   returned (start_itog (monday_at 21 0) ''7'' review_world) = Some ITOG_REVIEW \<and>
   map_option itog_plans (itog_in (world_of (start_itog (monday_at 21 0) ''7'' review_world)) ''7'')
     = Some [PlanDict None ''A'', PlanDict None ''B'']"
proof -
  let ?u = "(profile_with [PlanDict None ''A'', PlanDict None ''B''])\<lparr>itog_state := Some session_AB\<rparr>"
  let ?clk = "\<lambda>tz. (monday_at 21 0 tz)\<lparr>lt_weekday := Tuesday\<rparr>"
  have h1: "map_of (users_file review_world) ''7'' = Some ?u"
    by (simp add: review_world_def world_with_def)
  have h2: "day_plans_of ?u (lt_weekday (get_user_now ?clk ?u)) = []"
    by (simp add: day_plans_of_def profile_with_def get_user_now_def monday_at_def)
  have h2': "day_plans_of ?u Tuesday = []"
    by (simp add: day_plans_of_def profile_with_def)
  have h3: "''7'' \<notin> set (blocked review_world)"
    by (simp add: review_world_def world_with_def)
  have ob: "outbox review_world = []" by (simp add: review_world_def world_with_def)
  from start_itog_empty_plan_rejected[OF h1, of ?clk] h2 h3
  obtain w' where "itog_in (world_of (start_itog ?clk ''7'' review_world)) ''7'' = Some session_AB"
    and "start_itog ?clk ''7'' review_world = Inr (MAIN_MENU, w')"
    and "outbox w' = outbox review_world @ [(''7'', NoEntriesToday)]"
    by auto
  then have first: "itog_in (world_of (start_itog ?clk ''7'' review_world)) ''7'' = Some session_AB \<and>
      outbox (world_of (start_itog ?clk ''7'' review_world)) = [(''7'', NoEntriesToday)]"
    using ob by (simp add: world_of_def)
  let ?r = "start_itog (monday_at 21 0) ''7'' review_world"
  have ret: "returned ?r = Some ITOG_REVIEW"
    by (simp add: start_itog_def send_message_def Let_def returned_def day_plans_of_def
        get_user_now_def monday_at_def review_world_def world_with_def profile_with_def)
  then have "?r = Inr (ITOG_REVIEW, world_of ?r)"
    by (cases ?r) (auto simp: returned_def world_of_def)
  with start_itog_empty_plan_rejected[OF h1, of "monday_at 21 0"]
  obtain s where "itog_in (world_of ?r) ''7'' = Some s"
    and "itog_plans s = day_plans_of ?u (lt_weekday (get_user_now (monday_at 21 0) ?u))"
    by blast
  then have "map_option itog_plans (itog_in (world_of ?r) ''7'')
               = Some [PlanDict None ''A'', PlanDict None ''B'']"
    by (simp add: day_plans_of_def profile_with_def get_user_now_def monday_at_def)
  with first ret h1 h2' h3 show ?thesis by simp
qed

section \<open>Properties of the notification scheduler\<close>

lemma sent_key_inj [simp]: "sent_key today_key t x = sent_key today_key t y \<longleftrightarrow> x = y"
  by (simp add: sent_key_def)

lemma due_texts_set:
  "set (due_texts today_key t flags ps) =
     {x. PlanDict (Some t) x \<in> set ps \<and> flags (sent_key today_key t x) \<noteq> Some True}"
proof (induction today_key t flags ps rule: due_texts.induct)
  case (3 today_key current_time flags t tx rest)
  show ?case
  proof (cases "t = Some current_time \<and> flags (sent_key today_key current_time tx) \<noteq> Some True")
    case True
    have "set (due_texts today_key current_time
                 (flags(sent_key today_key current_time tx \<mapsto> True)) rest) =
          {x. PlanDict (Some current_time) x \<in> set rest \<and>
              (flags(sent_key today_key current_time tx \<mapsto> True))
                 (sent_key today_key current_time x) \<noteq> Some True}"
      using True by (intro "3.IH"(1)) simp
    with True show ?thesis by auto
  next
    case False
    then have "set (due_texts today_key current_time flags rest) =
          {x. PlanDict (Some current_time) x \<in> set rest \<and>
              flags (sent_key today_key current_time x) \<noteq> Some True}"
      by (intro "3.IH"(2)) simp
    with False show ?thesis by auto
  qed
qed simp_all

lemma due_texts_distinct: "distinct (due_texts today_key t flags ps)"
proof (induction today_key t flags ps rule: due_texts.induct)
  case (3 today_key current_time flags t tx rest)
  show ?case
  proof (cases "t = Some current_time \<and> flags (sent_key today_key current_time tx) \<noteq> Some True")
    case True
    have d: "distinct (due_texts today_key current_time
                 (flags(sent_key today_key current_time tx \<mapsto> True)) rest)"
      using True by (intro "3.IH"(1)) simp
    have n: "tx \<notin> set (due_texts today_key current_time
                      (flags(sent_key today_key current_time tx \<mapsto> True)) rest)"
      by (simp add: due_texts_set)
    from True d n show ?thesis by simp
  next
    case False
    then have "distinct (due_texts today_key current_time flags rest)"
      by (intro "3.IH"(2)) simp
    with False show ?thesis by auto
  qed
qed simp_all

lemma send_reminders_blocked:
  "user_id \<in> set (blocked w) \<Longrightarrow>
   world_of (send_reminders user_id today_key t ps user_data users w) = w"
  by (induction user_id today_key t ps user_data users w rule: send_reminders.induct)
     (auto simp: world_of_def send_message_def)

lemma marked_Nil [simp]: "marked today_key t flags [] = flags"
  by (simp add: marked_def)

lemma marked_single:
  "marked today_key t flags [x] = flags(sent_key today_key t x \<mapsto> True)"
  by (auto simp: marked_def fun_eq_iff)

lemma marked_Cons:
  "marked today_key t (flags(sent_key today_key t x \<mapsto> True)) xs = marked today_key t flags (x # xs)"
  by (auto simp: marked_def fun_eq_iff)

lemma send_reminders_reachable:
  "user_id \<notin> set (blocked w) \<Longrightarrow>
   \<exists>users1 w1.
     send_reminders user_id today_key t ps user_data users w =
       Inr ((user_data\<lparr>sent_flags :=
               marked today_key t (sent_flags user_data)
                 (due_texts today_key t (sent_flags user_data) ps)\<rparr>, users1), w1) \<and>
     outbox w1 = outbox w @
        map (\<lambda>x. (user_id, Reminder t x)) (due_texts today_key t (sent_flags user_data) ps) \<and>
     blocked w1 = blocked w \<and>
     global_plans_file w1 = global_plans_file w \<and>
     (due_texts today_key t (sent_flags user_data) ps = [] \<longrightarrow> users1 = users \<and> w1 = w) \<and>
     (due_texts today_key t (sent_flags user_data) ps \<noteq> [] \<longrightarrow>
        users1 = AList.update user_id
             (user_data\<lparr>sent_flags :=
               marked today_key t (sent_flags user_data)
                 (due_texts today_key t (sent_flags user_data) ps)\<rparr>) users \<and>
        users_file w1 = users1)"
  (is "_ \<Longrightarrow> ?P user_id today_key t ps user_data users w")
proof (induction user_id today_key t ps user_data users w rule: send_reminders.induct)
  case (1 user_id today_key t user_data users w)
  then show ?case by simp
next
  case (2 user_id today_key t s rest user_data users w)
  from "2.IH"[OF "2.prems"] show ?case
    by (simp only: send_reminders.simps due_texts.simps)
next
  case (3 user_id today_key t tm tx rest user_data users w)
  show ?case
  proof (cases "tm = Some t \<and> sent_flags user_data (sent_key today_key t tx) \<noteq> Some True")
    case False
    have e1: "send_reminders user_id today_key t (PlanDict tm tx # rest) user_data users w =
              send_reminders user_id today_key t rest user_data users w"
      using False by auto
    have e2: "due_texts today_key t (sent_flags user_data) (PlanDict tm tx # rest) =
              due_texts today_key t (sent_flags user_data) rest"
      using False by auto
    have "?P user_id today_key t rest user_data users w"
    proof (cases "tm = Some t")
      case True
      with False have "sent_flags user_data (sent_key today_key t tx) = Some True" by simp
      from "3.IH"(1)[OF True this "3.prems"] show ?thesis .
    next
      case False
      from "3.IH"(3)[OF False "3.prems"] show ?thesis .
    qed
    then show ?thesis unfolding e1 e2 .
  next
    case True
    let ?ud1 = "user_data\<lparr>sent_flags := (sent_flags user_data)(sent_key today_key t tx \<mapsto> True)\<rparr>"
    let ?users1 = "AList.update user_id ?ud1 users"
    let ?w1 = "w\<lparr>outbox := outbox w @ [(user_id, Reminder t tx)],
                 next_message_id := Suc (next_message_id w)\<rparr>"
    let ?w2 = "?w1\<lparr>users_file := ?users1\<rparr>"
    let ?rest = "due_texts today_key t (sent_flags ?ud1) rest"
    let ?fin = "user_data\<lparr>sent_flags := marked today_key t (sent_flags user_data) (tx # ?rest)\<rparr>"
    have sm: "send_message w user_id (Reminder t tx) = Inr (next_message_id w, ?w1)"
      using "3.prems" by (simp add: send_message_def)
    have nb: "user_id \<notin> set (blocked ?w2)" using "3.prems" by simp
    from True have tm: "tm = Some t"
      and nf: "sent_flags user_data (sent_key today_key t tx) \<noteq> Some True" by simp_all
    have fl: "?ud1\<lparr>sent_flags := marked today_key t (sent_flags ?ud1) ?rest\<rparr> = ?fin"
      by (simp add: marked_Cons)
    from "3.IH"(2)[OF tm nf sm refl refl refl nb, unfolded fl]
    obtain users2 w3 where
      r: "send_reminders user_id today_key t rest ?ud1 ?users1 ?w2 = Inr ((?fin, users2), w3)"
      and ob: "outbox w3 = outbox ?w2 @ map (\<lambda>x. (user_id, Reminder t x)) ?rest"
      and bl: "blocked w3 = blocked ?w2"
      and gp: "global_plans_file w3 = global_plans_file ?w2"
      and us0: "?rest = [] \<longrightarrow> users2 = ?users1 \<and> w3 = ?w2"
      and us1: "?rest \<noteq> [] \<longrightarrow> users2 = AList.update user_id ?fin ?users1 \<and> users_file w3 = users2"
      by blast
    have dt: "due_texts today_key t (sent_flags user_data) (PlanDict tm tx # rest) = tx # ?rest"
      using True by simp
    have e: "send_reminders user_id today_key t (PlanDict tm tx # rest) user_data users w =
             Inr ((?fin, users2), w3)"
      using True sm r by (simp add: Let_def)
    have u2: "users2 = AList.update user_id ?fin users \<and> users_file w3 = users2"
    proof (cases "?rest = []")
      case True
      with us0 have a: "users2 = ?users1" "w3 = ?w2" by simp_all
      have "marked today_key t (sent_flags user_data) (tx # ?rest) =
                       (sent_flags user_data)(sent_key today_key t tx \<mapsto> True)"
        unfolding True by (rule marked_single)
      then have b: "?fin = ?ud1" by (simp only:)
      show ?thesis unfolding b a by simp
    next
      case False
      with us1 show ?thesis by simp
    qed
    show ?thesis
      unfolding dt e
      apply (rule exI[of _ users2], rule exI[of _ w3])
      using ob bl gp u2 by simp
  qed
qed

lemma send_reminders_nothing_due:
  "due_texts today_key t (sent_flags user_data) ps = [] \<Longrightarrow>
   send_reminders user_id today_key t ps user_data users w = Inr ((user_data, users), w)"
proof (induction user_id today_key t ps user_data users w rule: send_reminders.induct)
  case (3 user_id today_key t tm tx rest user_data users w)
  from "3.prems" have c: "\<not> (tm = Some t \<and> sent_flags user_data (sent_key today_key t tx) \<noteq> Some True)"
    by (auto split: if_splits)
  with "3.prems" have d: "due_texts today_key t (sent_flags user_data) rest = []" by auto
  show ?case
  proof (cases "tm = Some t")
    case True
    with c have f: "sent_flags user_data (sent_key today_key t tx) = Some True" by simp
    from "3.IH"(1)[OF True f d] True f show ?thesis by simp
  next
    case False
    from "3.IH"(3)[OF False d] False show ?thesis by simp
  qed
qed simp_all

lemma send_reminders_blocked_due:
  "user_id \<in> set (blocked w) \<Longrightarrow> due_texts today_key t (sent_flags user_data) ps \<noteq> [] \<Longrightarrow>
   send_reminders user_id today_key t ps user_data users w = Inl (TelegramError, w)"
proof (induction user_id today_key t ps user_data users w rule: send_reminders.induct)
  case (3 user_id today_key t tm tx rest user_data users w)
  show ?case
  proof (cases "tm = Some t")
    case True
    note tm = this
    show ?thesis
    proof (cases "sent_flags user_data (sent_key today_key t tx) = Some True")
      case True
      with tm "3.prems" have "due_texts today_key t (sent_flags user_data) rest \<noteq> []" by simp
      from "3.IH"(1)[OF tm True "3.prems"(1) this] tm True show ?thesis by simp
    next
      case False
      with tm "3.prems"(1) show ?thesis by (simp add: send_message_def)
    qed
  next
    case False
    with "3.prems" have "due_texts today_key t (sent_flags user_data) rest \<noteq> []" by simp
    from "3.IH"(3)[OF False "3.prems"(1) this] False show ?thesis by simp
  qed
qed simp_all

lemma due_texts_after_marked:
  "due_texts today_key t (marked today_key t flags (due_texts today_key t flags ps)) ps = []"
proof -
  have "set (due_texts today_key t (marked today_key t flags (due_texts today_key t flags ps)) ps) = {}"
    by (auto simp: due_texts_set marked_def)
  then show ?thesis by simp
qed

lemma new_messages_append [simp]:
  "outbox w' = outbox w @ ms \<Longrightarrow> new_messages w w' = ms"
  by (simp add: new_messages_def)

lemma new_messages_same [simp]: "new_messages w w = []"
  by (simp add: new_messages_def)

lemma count_list_map_distinct:
  "inj f \<Longrightarrow> distinct xs \<Longrightarrow> count_list (map f xs) (f x) = (if x \<in> set xs then 1 else 0)"
  by (induction xs) (auto simp: inj_def)

text \<open>The three ways the reminder loop can end.\<close>

lemma send_reminders_cases [case_names none_due failed sent]:
  assumes none_due:
      "\<lbrakk>due_texts today_key t (sent_flags user_data) ps = [];
        send_reminders user_id today_key t ps user_data users w = Inr ((user_data, users), w)\<rbrakk>
       \<Longrightarrow> thesis"
    and failed:
      "\<lbrakk>due_texts today_key t (sent_flags user_data) ps \<noteq> [];
        user_id \<in> set (blocked w);
        send_reminders user_id today_key t ps user_data users w = Inl (TelegramError, w)\<rbrakk>
       \<Longrightarrow> thesis"
    and sent:
      "\<And>users1 w1.
       \<lbrakk>due_texts today_key t (sent_flags user_data) ps \<noteq> [];
        user_id \<notin> set (blocked w);
        send_reminders user_id today_key t ps user_data users w =
          Inr ((user_data\<lparr>sent_flags := marked today_key t (sent_flags user_data)
                   (due_texts today_key t (sent_flags user_data) ps)\<rparr>, users1), w1);
        outbox w1 = outbox w @
          map (\<lambda>x. (user_id, Reminder t x)) (due_texts today_key t (sent_flags user_data) ps);
        blocked w1 = blocked w;
        users1 = AList.update user_id
                   (user_data\<lparr>sent_flags := marked today_key t (sent_flags user_data)
                      (due_texts today_key t (sent_flags user_data) ps)\<rparr>) users;
        users_file w1 = users1\<rbrakk>
       \<Longrightarrow> thesis"
  shows thesis
proof (cases "due_texts today_key t (sent_flags user_data) ps = []")
  case True
  show ?thesis by (rule none_due[OF True send_reminders_nothing_due[OF True]])
next
  case False
  show ?thesis
  proof (cases "user_id \<in> set (blocked w)")
    case True
    show ?thesis by (rule failed[OF False True send_reminders_blocked_due[OF True False]])
  next
    case nb: False
    from send_reminders_reachable[OF nb, of today_key t ps user_data users]
    obtain users1 w1 where all:
      "send_reminders user_id today_key t ps user_data users w =
         Inr ((user_data\<lparr>sent_flags := marked today_key t (sent_flags user_data)
                  (due_texts today_key t (sent_flags user_data) ps)\<rparr>, users1), w1) \<and>
       outbox w1 = outbox w @
         map (\<lambda>x. (user_id, Reminder t x)) (due_texts today_key t (sent_flags user_data) ps) \<and>
       blocked w1 = blocked w \<and>
       global_plans_file w1 = global_plans_file w \<and>
       (due_texts today_key t (sent_flags user_data) ps = [] \<longrightarrow> users1 = users \<and> w1 = w) \<and>
       (due_texts today_key t (sent_flags user_data) ps \<noteq> [] \<longrightarrow>
          users1 = AList.update user_id
             (user_data\<lparr>sent_flags := marked today_key t (sent_flags user_data)
                 (due_texts today_key t (sent_flags user_data) ps)\<rparr>) users \<and>
          users_file w1 = users1)"
      by blast
    from all have a1: "send_reminders user_id today_key t ps user_data users w =
         Inr ((user_data\<lparr>sent_flags := marked today_key t (sent_flags user_data)
                  (due_texts today_key t (sent_flags user_data) ps)\<rparr>, users1), w1)"
      by (elim conjE)
    from all have a2: "outbox w1 = outbox w @
         map (\<lambda>x. (user_id, Reminder t x)) (due_texts today_key t (sent_flags user_data) ps)"
      by (elim conjE)
    from all have a3: "blocked w1 = blocked w" by (elim conjE)
    from all False have a45: "users1 = AList.update user_id
             (user_data\<lparr>sent_flags := marked today_key t (sent_flags user_data)
                 (due_texts today_key t (sent_flags user_data) ps)\<rparr>) users \<and>
          users_file w1 = users1"
      by blast
    from a45 have a4: "users1 = AList.update user_id
             (user_data\<lparr>sent_flags := marked today_key t (sent_flags user_data)
                 (due_texts today_key t (sent_flags user_data) ps)\<rparr>) users"
      by (elim conjE)
    from a45 have a5: "users_file w1 = users1" by (elim conjE)
    show ?thesis by (rule sent[OF False nb a1 a2 a3 a4 a5])

  qed
qed

text \<open>
  Claim C2. In one pass of the reminder loop, a reminder for a text goes out only for an
  entry of the plan whose time is the current minute and whose key is not yet set. When
  the pass ends without an error, the key of every such entry is set afterwards, the
  reminder of an entry has gone out exactly when its key was not set before, and a second
  pass from the state the first one left changes nothing and sends nothing.
\<close>

theorem reminder_sent_iff_key_absent:
  "(\<forall>x. (user_id, Reminder t x) \<in>
          set (new_messages w (world_of (send_reminders user_id today_key t ps user_data users w)))
        \<longrightarrow> PlanDict (Some t) x \<in> set ps \<and>
            sent_flags user_data (sent_key today_key t x) \<noteq> Some True) \<and>
   (\<forall>user_data1 users1 w1.
      send_reminders user_id today_key t ps user_data users w = Inr ((user_data1, users1), w1)
      \<longrightarrow> (\<forall>x. PlanDict (Some t) x \<in> set ps \<longrightarrow>
               sent_flags user_data1 (sent_key today_key t x) = Some True \<and>
               ((user_id, Reminder t x) \<in> set (new_messages w w1) \<longleftrightarrow>
                  sent_flags user_data (sent_key today_key t x) \<noteq> Some True)) \<and>
          send_reminders user_id today_key t ps user_data1 users1 w1 =
            Inr ((user_data1, users1), w1))"
proof (cases rule: send_reminders_cases[of today_key t user_data ps user_id users w])
  case none_due
  then have "\<And>x. PlanDict (Some t) x \<in> set ps \<Longrightarrow>
                 sent_flags user_data (sent_key today_key t x) = Some True"
    using due_texts_set[of today_key t "sent_flags user_data" ps] by auto
  with none_due show ?thesis by (auto simp: world_of_def)
next
  case failed
  then show ?thesis by (simp add: world_of_def)
next
  case (sent users1 w1)
  let ?due = "due_texts today_key t (sent_flags user_data) ps"
  have inj: "(user_id, Reminder t x) \<in> (\<lambda>x. (user_id, Reminder t x)) ` set ?due \<longleftrightarrow> x \<in> set ?due"
    for x by auto
  have again: "send_reminders user_id today_key t ps
                 (user_data\<lparr>sent_flags := marked today_key t (sent_flags user_data) ?due\<rparr>)
                 users1 w1 =
               Inr ((user_data\<lparr>sent_flags := marked today_key t (sent_flags user_data) ?due\<rparr>,
                     users1), w1)"
    by (rule send_reminders_nothing_due) (simp add: due_texts_after_marked)
  have flagged: "marked today_key t (sent_flags user_data) ?due (sent_key today_key t x) = Some True"
    if "PlanDict (Some t) x \<in> set ps" for x
    using that by (auto simp: marked_def due_texts_set)
  from sent again flagged show ?thesis
    by (auto simp: world_of_def inj due_texts_set)
qed

text \<open>
  Claim C10. However often an entry with the same time and text occurs in today's plan,
  one pass of the reminder loop sends at most one reminder for it. When the user can be
  reached, the entry is in the plan with the current minute as its time and its key is
  not yet set, the pass ends without an error and sends exactly one; a later pass from
  the state it left sends nothing.
\<close>

theorem duplicate_items_one_reminder:
  "count_list (new_messages w (world_of (send_reminders user_id today_key t ps user_data users w)))
      (user_id, Reminder t x) \<le> 1 \<and>
   (user_id \<notin> set (blocked w) \<and> PlanDict (Some t) x \<in> set ps \<and>
    sent_flags user_data (sent_key today_key t x) \<noteq> Some True \<longrightarrow>
      (\<exists>user_data1 users1 w1.
         send_reminders user_id today_key t ps user_data users w = Inr ((user_data1, users1), w1) \<and>
         count_list (new_messages w w1) (user_id, Reminder t x) = 1 \<and>
         new_messages w1 (world_of (send_reminders user_id today_key t ps user_data1 users1 w1)) = []))"
proof (cases rule: send_reminders_cases[of today_key t user_data ps user_id users w])
  case none_due
  then show ?thesis
    using due_texts_set[of today_key t "sent_flags user_data" ps] by (auto simp: world_of_def)
next
  case failed
  then show ?thesis by (simp add: world_of_def)
next
  case (sent users1 w1)
  let ?due = "due_texts today_key t (sent_flags user_data) ps"
  have inj: "inj (\<lambda>x. (user_id, Reminder t x))" by (simp add: inj_def)
  have cnt: "count_list (map (\<lambda>x. (user_id, Reminder t x)) ?due) (user_id, Reminder t x) =
               (if x \<in> set ?due then 1 else 0)"
    using count_list_map_distinct[OF inj due_texts_distinct, of today_key t "sent_flags user_data" ps x]
    by simp
  have again: "send_reminders user_id today_key t ps
                 (user_data\<lparr>sent_flags := marked today_key t (sent_flags user_data) ?due\<rparr>)
                 users1 w1 =
               Inr ((user_data\<lparr>sent_flags := marked today_key t (sent_flags user_data) ?due\<rparr>,
                     users1), w1)"
    by (rule send_reminders_nothing_due) (simp add: due_texts_after_marked)
  from sent cnt again show ?thesis
    by (auto simp: world_of_def due_texts_set)
qed

lemma is_brief_simps [simp]:
  "is_brief (MorningBrief n ps g)" "\<not> is_brief (Reminder t x)" "\<not> is_brief (Summary d n ps)"
  by (simp_all add: is_brief_def)

lemma is_summary_simps [simp]:
  "is_summary (Summary d n ps)" "\<not> is_summary (Reminder t x)" "\<not> is_summary (MorningBrief n ps g)"
  by (simp_all add: is_summary_def)

lemma send_daily_notification_effect:
  "\<exists>ms. outbox (send_daily_notification clk user_id w) = outbox w @ ms \<and>
        (\<forall>m \<in> set ms. fst m = user_id \<and> is_brief (snd m)) \<and>
        blocked (send_daily_notification clk user_id w) = blocked w \<and>
        (\<forall>fd. map_of (users_file w) user_id = Some fd \<longrightarrow>
           (\<exists>fd'. map_of (users_file (send_daily_notification clk user_id w)) user_id = Some fd' \<and>
                  timezone fd' = timezone fd))"
  by (auto simp: send_daily_notification_def send_message_def Let_def update_conv'
      split: option.splits)

lemma send_daily_summary_messages:
  "\<exists>ms. outbox (send_daily_summary clk user_id w) = outbox w @ ms \<and>
        (\<forall>m \<in> set ms. fst m = user_id \<and> is_summary (snd m))"
  by (auto simp: send_daily_summary_def send_message_def Let_def split: option.splits)

lemma send_daily_summary_effect:
  assumes "user_id \<notin> set (blocked w)" and "map_of (users_file w) user_id = Some fd"
  shows "\<exists>c. is_summary c \<and>
           outbox (send_daily_summary clk user_id w) = outbox w @ [(user_id, c)] \<and>
           map_of (users_file (send_daily_summary clk user_id w)) user_id =
             Some (fd\<lparr>last_summary_date := Some (lt_ymd (get_user_now clk fd))\<rparr>)"
  using assms
  by (simp add: send_daily_summary_def send_message_def Let_def update_conv')

lemma process_user_messages:
  "\<exists>ms. outbox (world_of (process_user clk user_id user_data users w)) = outbox w @ ms \<and>
        (\<forall>m \<in> set ms. fst m = user_id \<and> (is_brief (snd m) \<longrightarrow> brief_due clk user_data))"
proof -
  let ?now = "get_user_now clk user_data"
  let ?ct = "current_time_of ?now"
  let ?w1 = "if ?ct = effective_notification_time user_data \<and> setup_complete user_data
             then send_daily_notification clk user_id w else w"
  let ?ps = "day_plans_of user_data (lt_weekday ?now)"
  let ?r = "send_reminders user_id (lt_ymd ?now) ?ct ?ps user_data users ?w1"
  obtain ms1 where ms1: "outbox ?w1 = outbox w @ ms1"
    "\<forall>m \<in> set ms1. fst m = user_id \<and> (is_brief (snd m) \<longrightarrow> brief_due clk user_data)"
  proof (cases "?ct = effective_notification_time user_data \<and> setup_complete user_data")
    case True
    then have bd: "brief_due clk user_data" by (simp add: brief_due_def)
    from send_daily_notification_effect[of clk user_id w]
    obtain ms where "outbox (send_daily_notification clk user_id w) = outbox w @ ms"
      "\<forall>m \<in> set ms. fst m = user_id \<and> is_brief (snd m)" by blast
    with True bd that[of ms] show ?thesis by simp
  next
    case False
    with that[of "[]"] show ?thesis by simp
  qed
  have pu: "process_user clk user_id user_data users w =
     (case ?r of
        Inl ew \<Rightarrow> Inl ew
      | Inr ((user_data1, users1), w2) \<Rightarrow>
          if ?ct = SUMMARY_TIME \<and> setup_complete user_data1
             \<and> last_summary_date user_data1 \<noteq> Some (lt_ymd ?now)
          then Inr (AList.update user_id
                      (user_data1\<lparr>last_summary_date := Some (lt_ymd ?now)\<rparr>) users1,
                    send_daily_summary clk user_id w2)
          else Inr (users1, w2))"
    by (simp add: process_user_def Let_def)
  obtain w2 ms2 where w2: "outbox w2 = outbox ?w1 @ ms2"
    "\<forall>m \<in> set ms2. fst m = user_id \<and> \<not> is_brief (snd m)"
    "world_of (process_user clk user_id user_data users w) = w2 \<or>
     world_of (process_user clk user_id user_data users w) = send_daily_summary clk user_id w2"
  proof (cases rule: send_reminders_cases[of "lt_ymd ?now" ?ct user_data ?ps user_id users ?w1])
    case none_due
    with that[of ?w1 "[]"] show ?thesis unfolding pu by (auto simp: world_of_def)
  next
    case failed
    with that[of ?w1 "[]"] show ?thesis unfolding pu by (auto simp: world_of_def)
  next
    case (sent users1 w1)
    with that[of w1 "map (\<lambda>x. (user_id, Reminder ?ct x))
                       (due_texts (lt_ymd ?now) ?ct (sent_flags user_data) ?ps)"]
    show ?thesis unfolding pu by (auto simp: world_of_def)
  qed
  from send_daily_summary_messages[of clk user_id w2]
  obtain ms3 where ms3: "outbox (send_daily_summary clk user_id w2) = outbox w2 @ ms3"
    "\<forall>m \<in> set ms3. fst m = user_id \<and> is_summary (snd m)" by blast
  have nb: "\<not> is_brief c" if "is_summary c" for c
    using that by (cases c) (simp_all add: is_summary_def)
  from w2(3) show ?thesis
  proof
    assume "world_of (process_user clk user_id user_data users w) = w2"
    with ms1 w2 show ?thesis
      by (intro exI[of _ "ms1 @ ms2"]) auto
  next
    assume "world_of (process_user clk user_id user_data users w) = send_daily_summary clk user_id w2"
    with ms1 w2 ms3 nb show ?thesis
      by (intro exI[of _ "ms1 @ ms2 @ ms3"]) auto
  qed
qed

lemma tick_users_messages:
  "\<exists>ms. outbox (world_of (tick_users clk items users w)) = outbox w @ ms \<and>
        (\<forall>m \<in> set ms. is_brief (snd m) \<longrightarrow>
           (\<exists>user_data. (fst m, user_data) \<in> set items \<and> brief_due clk user_data))"
proof (induction items arbitrary: users w)
  case Nil
  then show ?case by (simp add: world_of_def)
next
  case (Cons item items)
  obtain user_id user_data where item: "item = (user_id, user_data)" by (cases item)
  from process_user_messages[of clk user_id user_data users w]
  obtain ms1 where ms1: "outbox (world_of (process_user clk user_id user_data users w)) = outbox w @ ms1"
    "\<forall>m \<in> set ms1. fst m = user_id \<and> (is_brief (snd m) \<longrightarrow> brief_due clk user_data)"
    by blast
  show ?case
  proof (cases "process_user clk user_id user_data users w")
    case (Inl ew)
    with ms1 item show ?thesis
      by (intro exI[of _ ms1]) (auto simp: world_of_def)
  next
    case (Inr p)
    obtain users1 w1 where p: "p = (users1, w1)" by (cases p)
    from Cons.IH[of users1 w1]
    obtain ms2 where ms2: "outbox (world_of (tick_users clk items users1 w1)) = outbox w1 @ ms2"
      "\<forall>m \<in> set ms2. is_brief (snd m) \<longrightarrow>
           (\<exists>user_data. (fst m, user_data) \<in> set items \<and> brief_due clk user_data)"
      by blast
    from Inr p ms1 have "outbox w1 = outbox w @ ms1" by (simp add: world_of_def)
    with Inr p ms1 ms2 item show ?thesis
      by (intro exI[of _ "ms1 @ ms2"]) (auto simp: world_of_def)
  qed
qed

text \<open>
  Claim C1, as amended. A morning brief that a round of the scheduler delivers to a user
  goes to a profile of the dictionary whose setup is complete and whose notification time
  is the current minute of its time zone, where a profile without a notification time
  counts as having 09:00: such a profile gets no brief at any minute other than 09:00.
\<close>

theorem morning_brief_only_when_due:
  assumes "(user_id, c) \<in> set (new_messages w (scheduler_tick clk w))" and "is_brief c"
  shows "\<exists>user_data. (user_id, user_data) \<in> set (users_file w) \<and>
           setup_complete user_data \<and>
           current_time_of (get_user_now clk user_data) = effective_notification_time user_data \<and>
           (notification_time user_data = None \<longrightarrow>
              current_time_of (get_user_now clk user_data) = ''09:00'')"
proof -
  from tick_users_messages[of clk "users_file w" "users_file w" w]
  obtain ms where ms: "outbox (scheduler_tick clk w) = outbox w @ ms"
    "\<forall>m \<in> set ms. is_brief (snd m) \<longrightarrow>
           (\<exists>user_data. (fst m, user_data) \<in> set (users_file w) \<and> brief_due clk user_data)"
    unfolding scheduler_tick_def by blast
  from ms(1) assms(1) have "(user_id, c) \<in> set ms" by simp
  with ms(2) assms(2) obtain user_data where
    "(user_id, user_data) \<in> set (users_file w)" "brief_due clk user_data" by fastforce
  then show ?thesis
    by (intro exI[of _ user_data]) (auto simp: brief_due_def effective_notification_time_def)
qed

text \<open>
  Claim C1 as stated fails, since the brief can fire for a profile without a notification
  time: here a profile whose setup is complete and that has none gets the morning brief
  in the round at 09:00.
\<close>

theorem morning_brief_default_time_counterexample:
  "notification_time (profile_with []) = None \<and>
   new_messages (fresh_world []) (scheduler_tick (monday_at 9 0) (fresh_world []))
     = [(''7'', MorningBrief Monday [] [])]"
  by (simp add: scheduler_tick_def process_user_def world_of_def send_message_def
      send_daily_notification_def new_messages_def
      get_user_now_def monday_at_def current_time_of_def fmt02_def decimal.simps digit_char_def
      effective_notification_time_def day_plans_of_def SUMMARY_TIME_def
      fresh_world_def world_with_def profile_with_def empty_user_def Let_def)

theorem morning_brief_only_when_due_witness:
  "(''7'', MorningBrief Monday [] []) \<in>
      set (new_messages (fresh_world []) (scheduler_tick (monday_at 9 0) (fresh_world []))) \<and>
   is_brief (MorningBrief Monday [] []) \<and>
   (\<exists>user_data. (''7'', user_data) \<in> set (users_file (fresh_world [])) \<and>
      setup_complete user_data \<and>
      current_time_of (get_user_now (monday_at 9 0) user_data) =
        effective_notification_time user_data \<and>
      (notification_time user_data = None \<longrightarrow>
         current_time_of (get_user_now (monday_at 9 0) user_data) = ''09:00''))"
proof -
  have h1: "(''7'', MorningBrief Monday [] []) \<in>
      set (new_messages (fresh_world []) (scheduler_tick (monday_at 9 0) (fresh_world [])))"
    by (simp add: scheduler_tick_def process_user_def world_of_def send_message_def
      send_daily_notification_def new_messages_def
      get_user_now_def monday_at_def current_time_of_def fmt02_def decimal.simps digit_char_def
      effective_notification_time_def day_plans_of_def SUMMARY_TIME_def
      fresh_world_def world_with_def profile_with_def empty_user_def Let_def)
  have h2: "is_brief (MorningBrief Monday [] [])" by simp
  from morning_brief_only_when_due[OF h1 h2] h1 h2 show ?thesis by blast
qed

theorem reminder_sent_iff_key_absent_witness:
  "PlanDict (Some ''08:00'') ''run'' \<in> set [run_item] \<and>
   sent_flags (profile_with [run_item]) (sent_key ''2025-05-12'' ''08:00'' ''run'') \<noteq> Some True \<and>
   send_reminders ''7'' ''2025-05-12'' ''08:00'' [run_item] (profile_with [run_item])
      (users_file (fresh_world [run_item])) (fresh_world [run_item])
     = Inr ((reminded_profile, users_file reminded_world), reminded_world) \<and>
   (''7'', Reminder ''08:00'' ''run'') \<in> set (new_messages (fresh_world [run_item]) reminded_world) \<and>
   sent_flags reminded_profile (sent_key ''2025-05-12'' ''08:00'' ''run'') = Some True \<and>
   send_reminders ''7'' ''2025-05-12'' ''08:00'' [run_item] reminded_profile
      (users_file reminded_world) reminded_world
     = Inr ((reminded_profile, users_file reminded_world), reminded_world)"
proof -
  have h1: "PlanDict (Some ''08:00'') ''run'' \<in> set [run_item]" by (simp add: run_item_def)
  have h2: "sent_flags (profile_with [run_item]) (sent_key ''2025-05-12'' ''08:00'' ''run'')
              \<noteq> Some True"
    by (simp add: profile_with_def empty_user_def)
  have h3: "send_reminders ''7'' ''2025-05-12'' ''08:00'' [run_item] (profile_with [run_item])
      (users_file (fresh_world [run_item])) (fresh_world [run_item])
     = Inr ((reminded_profile, users_file reminded_world), reminded_world)"
    by (simp add: run_item_def send_message_def fresh_world_def world_with_def
        reminded_world_def reminded_profile_def profile_with_def empty_user_def Let_def
        numeral_2_eq_2)
  from reminder_sent_iff_key_absent[of "''7''" "''08:00''" "fresh_world [run_item]"
        "''2025-05-12''" "[run_item]" "profile_with [run_item]"
        "users_file (fresh_world [run_item])"] h3 h1 h2
  show ?thesis by blast
qed

theorem duplicate_items_one_reminder_witness:
  "''7'' \<notin> set (blocked (fresh_world [run_item, run_item])) \<and>
   PlanDict (Some ''08:00'') ''run'' \<in> set [run_item, run_item] \<and>
   sent_flags (profile_with [run_item, run_item]) (sent_key ''2025-05-12'' ''08:00'' ''run'')
     \<noteq> Some True \<and>
   count_list
     (new_messages (fresh_world [run_item, run_item])
        (world_of (send_reminders ''7'' ''2025-05-12'' ''08:00'' [run_item, run_item]
           (profile_with [run_item, run_item]) (users_file (fresh_world [run_item, run_item]))
           (fresh_world [run_item, run_item]))))
     (''7'', Reminder ''08:00'' ''run'') = 1"
proof -
  have h1: "''7'' \<notin> set (blocked (fresh_world [run_item, run_item]))"
    by (simp add: fresh_world_def world_with_def)
  have h2: "PlanDict (Some ''08:00'') ''run'' \<in> set [run_item, run_item]"
    by (simp add: run_item_def)
  have h3: "sent_flags (profile_with [run_item, run_item])
              (sent_key ''2025-05-12'' ''08:00'' ''run'') \<noteq> Some True"
    by (simp add: profile_with_def empty_user_def)
  from duplicate_items_one_reminder[of "fresh_world [run_item, run_item]" "''7''"
        "''2025-05-12''" "''08:00''" "[run_item, run_item]" "profile_with [run_item, run_item]"
        "users_file (fresh_world [run_item, run_item])" "''run''"] h1 h2 h3
  obtain user_data1 users1 w1 where
    "send_reminders ''7'' ''2025-05-12'' ''08:00'' [run_item, run_item]
        (profile_with [run_item, run_item]) (users_file (fresh_world [run_item, run_item]))
        (fresh_world [run_item, run_item]) = Inr ((user_data1, users1), w1)"
    "count_list (new_messages (fresh_world [run_item, run_item]) w1)
        (''7'', Reminder ''08:00'' ''run'') = 1"
    by blast
  with h1 h2 h3 show ?thesis by (simp add: world_of_def)
qed

text \<open>
  Claim C3 fails on the code. With two users who both have an entry for the current
  minute, the first of them unreachable, the round ends at the first user's reminder and
  the second user gets nothing. In the other order the second user is served, and when it
  is the morning brief that cannot be delivered to the first user, the second user is
  served as well: the two functions that send the brief and the summary catch the error,
  the reminder loop does not.
\<close>

theorem tick_stops_at_failed_reminder:
  "new_messages (world_with two_users [''1''])
      (scheduler_tick (monday_at 8 0) (world_with two_users [''1''])) = [] \<and>
   new_messages (world_with (rev two_users) [''1''])
      (scheduler_tick (monday_at 8 0) (world_with (rev two_users) [''1'']))
     = [(''2'', Reminder ''08:00'' ''read'')] \<and>
   new_messages (world_with two_users [''1''])
      (scheduler_tick (monday_at 9 0) (world_with two_users [''1'']))
     = [(''2'', MorningBrief Monday [PlanDict (Some ''08:00'') ''read''] [])]"
  by (simp add: scheduler_tick_def process_user_def world_of_def send_message_def
      send_daily_notification_def new_messages_def
      get_user_now_def monday_at_def current_time_of_def fmt02_def decimal.simps digit_char_def
      effective_notification_time_def day_plans_of_def sent_key_def SUMMARY_TIME_def
      world_with_def two_users_def profile_with_def empty_user_def Let_def)

lemma get_user_now_timezone:
  "timezone a = timezone b \<Longrightarrow> get_user_now clk a = get_user_now clk b"
  by (simp add: get_user_now_def get_user_timezone_def)

lemma process_user_before_summary:
  assumes infile: "map_of (users_file w) user_id = Some file_data"
    and tz: "timezone file_data = timezone user_data"
    and reach: "user_id \<notin> set (blocked w)"
  shows "\<exists>user_data1 users1 w2 ms fd2.
     send_reminders user_id (lt_ymd (get_user_now clk user_data))
        (current_time_of (get_user_now clk user_data))
        (day_plans_of user_data (lt_weekday (get_user_now clk user_data))) user_data users
        (if current_time_of (get_user_now clk user_data) = effective_notification_time user_data
            \<and> setup_complete user_data
         then send_daily_notification clk user_id w else w)
       = Inr ((user_data1, users1), w2) \<and>
     setup_complete user_data1 = setup_complete user_data \<and>
     last_summary_date user_data1 = last_summary_date user_data \<and>
     map_of (AList.update user_id
               (user_data1\<lparr>last_summary_date := Some (lt_ymd (get_user_now clk user_data))\<rparr>)
               users1) user_id
       = Some (user_data1\<lparr>last_summary_date := Some (lt_ymd (get_user_now clk user_data))\<rparr>) \<and>
     outbox w2 = outbox w @ ms \<and> (\<forall>m \<in> set ms. \<not> is_summary (snd m)) \<and>
     user_id \<notin> set (blocked w2) \<and>
     map_of (users_file w2) user_id = Some fd2 \<and> timezone fd2 = timezone user_data"
proof -
  let ?now = "get_user_now clk user_data"
  let ?ct = "current_time_of ?now"
  let ?w1 = "if ?ct = effective_notification_time user_data \<and> setup_complete user_data
             then send_daily_notification clk user_id w else w"
  let ?ps = "day_plans_of user_data (lt_weekday ?now)"
  have nsb: "\<not> is_summary c" if "is_brief c" for c
    using that by (cases c) (simp_all add: is_brief_def)
  obtain ms1 fd1 where w1: "outbox ?w1 = outbox w @ ms1" "\<forall>m \<in> set ms1. \<not> is_summary (snd m)"
    "blocked ?w1 = blocked w" "map_of (users_file ?w1) user_id = Some fd1"
    "timezone fd1 = timezone user_data"
  proof (cases "?ct = effective_notification_time user_data \<and> setup_complete user_data")
    case True
    from send_daily_notification_effect[of clk user_id w] infile
    obtain ms fd' where "outbox (send_daily_notification clk user_id w) = outbox w @ ms"
      "\<forall>m \<in> set ms. fst m = user_id \<and> is_brief (snd m)"
      "blocked (send_daily_notification clk user_id w) = blocked w"
      "map_of (users_file (send_daily_notification clk user_id w)) user_id = Some fd'"
      "timezone fd' = timezone file_data"
      by blast
    with True tz nsb that[of ms fd'] show ?thesis by auto
  next
    case False
    with infile tz that[of "[]" file_data] show ?thesis by simp
  qed
  show ?thesis
  proof (cases rule: send_reminders_cases[of "lt_ymd ?now" ?ct user_data ?ps user_id users ?w1])
    case none_due
    show ?thesis
      apply (rule exI[of _ user_data], rule exI[of _ users], rule exI[of _ ?w1],
             rule exI[of _ ms1], rule exI[of _ fd1])
      using none_due(2) w1 reach by (simp add: update_conv')
  next
    case failed
    with w1(3) reach show ?thesis by simp
  next
    case (sent users1 w2)
    let ?ud1 = "user_data\<lparr>sent_flags := marked (lt_ymd ?now) ?ct (sent_flags user_data)
                  (due_texts (lt_ymd ?now) ?ct (sent_flags user_data) ?ps)\<rparr>"
    have m: "map_of (users_file w2) user_id = Some ?ud1"
      using sent(6,7) by (simp add: update_conv')
    show ?thesis
      apply (rule exI[of _ ?ud1], rule exI[of _ users1], rule exI[of _ w2],
             rule exI[of _ "ms1 @ map (\<lambda>x. (user_id, Reminder ?ct x))
                       (due_texts (lt_ymd ?now) ?ct (sent_flags user_data) ?ps)"],
             rule exI[of _ ?ud1])
      using sent(3,4,5) m w1 reach by (auto simp: update_conv')
  qed
qed

text \<open>
  What one step of the scheduler does about the evening summary. For a user who is in the
  file and can be reached, the step for the profile ends without an error and delivers
  exactly one evening summary when the setup is complete, the current minute of the
  profile's time zone is the summary time and the date of the last summary is not today,
  and none otherwise. When it delivers one, the date of the last summary is today
  afterwards, in the file and in the dictionary of the round, so that for the saved
  profile no summary is due at any later time of the same local date.
\<close>

theorem evening_summary_iff:
  assumes infile: "map_of (users_file w) user_id = Some file_data"
    and tz: "timezone file_data = timezone user_data"
    and reach: "user_id \<notin> set (blocked w)"
  shows "\<exists>users' w'.
      process_user clk user_id user_data users w = Inr (users', w') \<and>
      length (summaries (new_messages w w')) =
        (if summary_due clk user_data then 1 else 0) \<and>
      (summary_due clk user_data \<longrightarrow>
         (\<exists>u. map_of (users_file w') user_id = Some u \<and>
              last_summary_date u = Some (lt_ymd (get_user_now clk user_data)) \<and>
              (\<forall>clk'. lt_ymd (get_user_now clk' u) = lt_ymd (get_user_now clk user_data)
                       \<longrightarrow> \<not> summary_due clk' u)) \<and>
         (\<exists>u. map_of users' user_id = Some u \<and>
              last_summary_date u = Some (lt_ymd (get_user_now clk user_data))))"
proof -
  let ?now = "get_user_now clk user_data"
  let ?ct = "current_time_of ?now"
  from process_user_before_summary[OF infile tz reach, of clk users]
  obtain user_data1 users1 w2 ms fd2 where
    r: "send_reminders user_id (lt_ymd ?now) ?ct
          (day_plans_of user_data (lt_weekday ?now)) user_data users
          (if ?ct = effective_notification_time user_data \<and> setup_complete user_data
           then send_daily_notification clk user_id w else w)
        = Inr ((user_data1, users1), w2)"
    and sc: "setup_complete user_data1 = setup_complete user_data"
    and ls: "last_summary_date user_data1 = last_summary_date user_data"
    and mu: "map_of (AList.update user_id
               (user_data1\<lparr>last_summary_date := Some (lt_ymd ?now)\<rparr>) users1) user_id
             = Some (user_data1\<lparr>last_summary_date := Some (lt_ymd ?now)\<rparr>)"
    and ob: "outbox w2 = outbox w @ ms" and ns: "\<forall>m \<in> set ms. \<not> is_summary (snd m)"
    and nb: "user_id \<notin> set (blocked w2)"
    and f2: "map_of (users_file w2) user_id = Some fd2" and tz2: "timezone fd2 = timezone user_data"
    by blast
  have flt: "summaries ms = []" using ns by (simp add: summaries_def filter_empty_conv)
  show ?thesis
  proof (cases "summary_due clk user_data")
    case False
    then have pu: "process_user clk user_id user_data users w = Inr (users1, w2)"
      using r sc ls by (auto simp: process_user_def Let_def summary_due_def)
    from False pu ob flt show ?thesis by simp
  next
    case True
    then have pu: "process_user clk user_id user_data users w =
        Inr (AList.update user_id (user_data1\<lparr>last_summary_date := Some (lt_ymd ?now)\<rparr>) users1,
             send_daily_summary clk user_id w2)"
      using r sc ls by (auto simp: process_user_def Let_def summary_due_def)
    from send_daily_summary_effect[OF nb f2, of clk]
    obtain c where c: "is_summary c"
      "outbox (send_daily_summary clk user_id w2) = outbox w2 @ [(user_id, c)]"
      "map_of (users_file (send_daily_summary clk user_id w2)) user_id =
         Some (fd2\<lparr>last_summary_date := Some (lt_ymd (get_user_now clk fd2))\<rparr>)"
      by blast
    have now2: "get_user_now clk fd2 = ?now" using tz2 by (rule get_user_now_timezone)
    let ?u = "fd2\<lparr>last_summary_date := Some (lt_ymd ?now)\<rparr>"
    have obx: "outbox (send_daily_summary clk user_id w2) = outbox w @ (ms @ [(user_id, c)])"
      using c(2) ob by simp
    have cnt: "length (summaries (new_messages w (send_daily_summary clk user_id w2))) = 1"
      using new_messages_append[OF obx] flt c(1) by (simp add: summaries_def)
    have later: "\<not> summary_due clk' ?u"
      if "lt_ymd (get_user_now clk' ?u) = lt_ymd ?now" for clk'
      using that by (simp add: summary_due_def)
    show ?thesis
      apply (rule exI[of _ "AList.update user_id
                  (user_data1\<lparr>last_summary_date := Some (lt_ymd ?now)\<rparr>) users1"],
             rule exI[of _ "send_daily_summary clk user_id w2"])
      using True pu cnt c(3) now2 later mu by auto
  qed
qed


theorem evening_summary_iff_witness:
  "map_of (users_file (fresh_world [])) ''7'' = Some (profile_with []) \<and>
   ''7'' \<notin> set (blocked (fresh_world [])) \<and>
   summary_due (monday_at 23 59) (profile_with []) \<and>
   length (summaries (new_messages (fresh_world [])
      (world_of (process_user (monday_at 23 59) ''7'' (profile_with [])
         (users_file (fresh_world [])) (fresh_world []))))) = 1 \<and>
   last_summary_date_in
      (world_of (process_user (monday_at 23 59) ''7'' (profile_with [])
         (users_file (fresh_world [])) (fresh_world []))) ''7'' = Some ''2025-05-12''"
proof -
  have h1: "map_of (users_file (fresh_world [])) ''7'' = Some (profile_with [])"
    by (simp add: fresh_world_def world_with_def)
  have h2: "timezone (profile_with []) = timezone (profile_with [])" by simp
  have h3: "''7'' \<notin> set (blocked (fresh_world []))"
    by (simp add: fresh_world_def world_with_def)
  have due: "summary_due (monday_at 23 59) (profile_with [])"
    by (simp add: summary_due_def get_user_now_def monday_at_def current_time_of_def fmt02_def
        decimal.simps digit_char_def SUMMARY_TIME_def profile_with_def empty_user_def)
  have today: "lt_ymd (get_user_now (monday_at 23 59) (profile_with [])) = ''2025-05-12''"
    by (simp add: get_user_now_def monday_at_def)
  from evening_summary_iff[OF h1 h2 h3, of "monday_at 23 59" "users_file (fresh_world [])"] due
  obtain users' w' u where
    "process_user (monday_at 23 59) ''7'' (profile_with []) (users_file (fresh_world []))
       (fresh_world []) = Inr (users', w')"
    "length (summaries (new_messages (fresh_world []) w')) = 1"
    "map_of (users_file w') ''7'' = Some u"
    "last_summary_date u = Some (lt_ymd (get_user_now (monday_at 23 59) (profile_with [])))"
    by auto
  with h1 h3 due today show ?thesis
    by (simp add: world_of_def last_summary_date_in_def)
qed

text \<open>
  Claim C7 fails on the code, by the defect of claim C3. At 23:59, with the first user
  unreachable and the second due for the evening summary and reachable, the round ends at
  the first user's reminder and the second user gets no summary; in the other order the
  second user gets it. And the date of the last summary is set without a summary: when
  the summary for the unreachable user fails and a later user's reminder saves the
  dictionary of the round, the file says that the summary of today has been sent.
\<close>

theorem tick_skips_due_summary:
  "summary_due (monday_at 23 59) (profile_with []) \<and>
   new_messages (world_with late_users [''1''])
      (scheduler_tick (monday_at 23 59) (world_with late_users [''1''])) = [] \<and>
   new_messages (world_with (rev late_users) [''1''])
      (scheduler_tick (monday_at 23 59) (world_with (rev late_users) [''1'']))
     = [(''2'', Summary ''12.05.2025'' Monday [])] \<and>
   summaries (filter (\<lambda>m. fst m = ''2'')
      (new_messages (world_with (rev late_users) [''2''])
         (scheduler_tick (monday_at 23 59) (world_with (rev late_users) [''2''])))) = [] \<and>
   last_summary_date_in
      (scheduler_tick (monday_at 23 59) (world_with (rev late_users) [''2''])) ''2''
     = Some ''2025-05-12''"
  by (simp add: scheduler_tick_def process_user_def world_of_def send_message_def
      send_daily_notification_def send_daily_summary_def new_messages_def summary_due_def
      summaries_def is_summary_def last_summary_date_in_def
      get_user_now_def monday_at_def current_time_of_def fmt02_def decimal.simps digit_char_def
      effective_notification_time_def day_plans_of_def sent_key_def SUMMARY_TIME_def
      world_with_def late_users_def profile_with_def empty_user_def Let_def)

section \<open>Properties of the text input\<close>


lemma is_decimal_facts:
  assumes "is_decimal c"
  shows "\<not> isspace c" "\<not> int_space c" "c \<noteq> CHR '':''" "c \<noteq> CHR '';''" "c \<noteq> CHR ''-''"
    "c \<noteq> CHR ''+''" "c \<noteq> CHR ''_''" "isdigit c" "0 \<le> digit_value c" "digit_value c \<le> 9"
  using assms by (auto simp: is_decimal_def isspace_def int_space_def isdigit_def digit_value_def)

lemma digit_cases:
  "(d::nat) < 10 \<Longrightarrow> d = 0 \<or> d = 1 \<or> d = 2 \<or> d = 3 \<or> d = 4 \<or> d = 5 \<or> d = 6 \<or> d = 7 \<or> d = 8 \<or> d = 9"
  by arith

lemma digit_char_decimal: "d < 10 \<Longrightarrow> is_decimal (digit_char d)"
  using digit_cases[of d] by (auto simp: digit_char_def is_decimal_def)

lemma digit_char_value: "d < 10 \<Longrightarrow> digit_value (digit_char d) = int d"
  using digit_cases[of d] by (auto simp: digit_char_def digit_value_def)

lemma digit_char_not_colon: "d < 10 \<Longrightarrow> digit_char d \<noteq> CHR '':''"
  using is_decimal_facts(3)[OF digit_char_decimal] by simp

lemma digit_char_not_space: "d < 10 \<Longrightarrow> \<not> isspace (digit_char d)"
  using is_decimal_facts(1)[OF digit_char_decimal] by simp

lemma fmt02_two_digits:
  "n < 100 \<Longrightarrow> fmt02 n = [digit_char (n div 10), digit_char (n mod 10)]"
proof -
  assume n: "n < 100"
  show ?thesis
  proof (cases "n < 10")
    case True
    then show ?thesis by (simp add: fmt02_def decimal.simps[of n] digit_char_def)
  next
    case False
    with n have "n div 10 < 10" by simp
    with False show ?thesis
      by (simp add: fmt02_def decimal.simps[of n] decimal.simps[of "n div 10"])
  qed
qed

lemma py_int_two_decimals:
  assumes "is_decimal a" "is_decimal b"
  shows "py_int [a, b] = Some (10 * digit_value a + digit_value b)"
  using is_decimal_facts[OF assms(1)] is_decimal_facts[OF assms(2)] assms
  by (simp add: py_int_def py_digits_def)

lemma py_int_fmt02: "n < 100 \<Longrightarrow> py_int (fmt02 n) = Some (int n)"
proof -
  assume n: "n < 100"
  then have d: "n div 10 < 10" "n mod 10 < 10" by simp_all
  have "int n = 10 * int (n div 10) + int (n mod 10)" by presburger
  with n d show ?thesis
    by (simp add: fmt02_two_digits py_int_two_decimals digit_char_decimal digit_char_value)
qed

lemma split_on_no_sep: "sep \<notin> set a \<Longrightarrow> split_on sep a = [a]"
  by (induction a) auto

lemma split_on_append: "sep \<notin> set a \<Longrightarrow> split_on sep (a @ sep # b) = a # split_on sep b"
  by (induction a) auto

lemma strip_clean:
  assumes "list_all isspace pre" "x \<noteq> []" "\<not> isspace (hd x)" "\<not> isspace (last x)"
  shows "strip (pre @ x) = x"
proof -
  have "dropWhile isspace (pre @ x) = dropWhile isspace x"
    using assms(1) by (simp add: dropWhile_append2 list_all_iff)
  also have "\<dots> = x" using assms(2,3) by (cases x) simp_all
  finally have d: "dropWhile isspace (pre @ x) = x" .
  have "dropWhile isspace (rev x) = rev x"
    using assms(2,4) by (cases "rev x") (simp_all add: last_rev[symmetric] hd_rev)
  with d show ?thesis by (simp add: strip_def)
qed

lemma strip_Nil [simp]: "strip [] = []"
  by (simp add: strip_def)

lemma parse_time_text_canonical:
  assumes "h \<le> 23" "m \<le> 59"
  shows "parse_time_text (fmt02 h @ '':'' @ fmt02 m) = Inr (fmt02 h @ '':'' @ fmt02 m)"
proof -
  from assms have lt: "h < 100" "m < 100" by simp_all
  then have dh: "h div 10 < 10" "h mod 10 < 10" and dm: "m div 10 < 10" "m mod 10 < 10"
    by simp_all
  have nc: "CHR '':'' \<notin> set (fmt02 h)" "CHR '':'' \<notin> set (fmt02 m)"
    using digit_char_not_colon[OF dh(1)] digit_char_not_colon[OF dh(2)]
      digit_char_not_colon[OF dm(1)] digit_char_not_colon[OF dm(2)] lt
    by (simp_all add: fmt02_two_digits)
  have sp: "split_on CHR '':'' (fmt02 h @ CHR '':'' # fmt02 m) = [fmt02 h, fmt02 m]"
    using split_on_append[OF nc(1), of "fmt02 m"] split_on_no_sep[OF nc(2)] by simp
  show ?thesis
    using assms lt by (simp add: parse_time_text_def sp py_int_fmt02)
qed

lemma strip_canonical:
  assumes "h \<le> 23" "m \<le> 59"
  shows "strip (fmt02 h @ '':'' @ fmt02 m) = fmt02 h @ '':'' @ fmt02 m"
proof -
  from assms have lt: "h < 100" "m < 100" by simp_all
  then have dh: "h div 10 < 10" and dm: "m mod 10 < 10" by simp_all
  have "strip ([] @ (fmt02 h @ '':'' @ fmt02 m)) = fmt02 h @ '':'' @ fmt02 m"
    using lt digit_char_not_space[OF dh] digit_char_not_space[OF dm]
    by (intro strip_clean) (simp_all add: fmt02_two_digits)
  then show ?thesis by simp
qed

lemma parse_time_text_sound:
  "parse_time_text s = Inr t \<Longrightarrow> \<exists>h m. h \<le> 23 \<and> m \<le> 59 \<and> t = fmt02 h @ '':'' @ fmt02 m"
proof -
  assume a: "parse_time_text s = Inr t"
  then obtain p0 p1 hour minute where
    "py_int p0 = Some hour" "py_int p1 = Some minute"
    "0 \<le> hour" "hour \<le> 23" "0 \<le> minute" "minute \<le> 59"
    "t = fmt02 (nat hour) @ '':'' @ fmt02 (nat minute)"
    by (auto simp: parse_time_text_def split: list.splits option.splits if_splits)
  then show ?thesis
    by (intro exI[of _ "nat hour"] exI[of _ "nat minute"]) auto
qed

lemma parse_time_text_error: "parse_time_text s = Inl e \<Longrightarrow> e = ValueError"
  by (auto simp: parse_time_text_def split: list.splits option.splits if_splits)

lemma reply_and_return_ok:
  "user_id \<notin> set (blocked w) \<Longrightarrow>
   reply_and_return user_id users c st w =
     Inr (st, w\<lparr>outbox := outbox w @ [(user_id, c)],
                next_message_id := Suc (next_message_id w),
                users_file := AList.update user_id
                   ((case map_of users user_id of None \<Rightarrow> empty_user | Some u \<Rightarrow> u)
                      \<lparr>last_bot_message_id := Some (next_message_id w),
                       last_bot_message_chat_id := Some user_id\<rparr>) users\<rparr>)"
  by (simp add: reply_and_return_def send_and_replace_ok)

lemma split_on_nonempty: "split_on sep s \<noteq> []"
  by (induction s) (auto split: list.splits)

lemma split_on_one: "split_on sep s = [p] \<longleftrightarrow> s = p \<and> sep \<notin> set p"
proof (induction s arbitrary: p)
  case Nil
  then show ?case by auto
next
  case (Cons c cs)
  show ?case
  proof (cases "c = sep")
    case True
    then show ?thesis using split_on_nonempty[of sep cs] by auto
  next
    case False
    then show ?thesis using Cons[of "tl p"] split_on_nonempty[of sep cs]
      by (cases p) (auto split: list.splits)
  qed
qed

lemma split_on_two:
  "split_on sep s = [p0, p1] \<longleftrightarrow> s = p0 @ sep # p1 \<and> sep \<notin> set p0 \<and> sep \<notin> set p1"
proof (induction s arbitrary: p0)
  case Nil
  then show ?case by auto
next
  case (Cons c cs)
  show ?case
  proof (cases "c = sep")
    case True
    then show ?thesis using split_on_one[of sep cs p1] by (cases p0) auto
  next
    case False
    then show ?thesis using Cons[of "tl p0"] split_on_nonempty[of sep cs]
      by (cases p0) (auto split: list.splits)
  qed
qed

lemma parse_time_text_accepts:
  "parse_time_text s = Inr t \<longleftrightarrow>
     (\<exists>p0 p1 hour minute. accepted_as s p0 p1 hour minute \<and>
          t = fmt02 (nat hour) @ '':'' @ fmt02 (nat minute))"
proof
  assume "parse_time_text s = Inr t"
  then obtain p0 p1 hour minute where
    "split_on CHR '':'' s = [p0, p1]" "py_int p0 = Some hour" "py_int p1 = Some minute"
    "0 \<le> hour" "hour \<le> 23" "0 \<le> minute" "minute \<le> 59"
    "t = fmt02 (nat hour) @ '':'' @ fmt02 (nat minute)"
    by (auto simp: parse_time_text_def split: list.splits option.splits if_splits)
  then show "\<exists>p0 p1 hour minute. accepted_as s p0 p1 hour minute \<and>
          t = fmt02 (nat hour) @ '':'' @ fmt02 (nat minute)"
    by (intro exI[of _ p0] exI[of _ p1] exI[of _ hour] exI[of _ minute])
       (simp add: accepted_as_def split_on_two)
next
  assume "\<exists>p0 p1 hour minute. accepted_as s p0 p1 hour minute \<and>
          t = fmt02 (nat hour) @ '':'' @ fmt02 (nat minute)"
  then obtain p0 p1 hour minute where a: "accepted_as s p0 p1 hour minute"
    and t: "t = fmt02 (nat hour) @ '':'' @ fmt02 (nat minute)" by blast
  from a have "split_on CHR '':'' s = [p0, p1]"
    by (simp add: accepted_as_def split_on_two)
  with a t show "parse_time_text s = Inr t"
    by (simp add: parse_time_text_def accepted_as_def)
qed

text \<open>
  Claim C6, as amended. For a known user who can be reached and is being asked for the
  time, the handler always returns to the main menu, and:
  every valid zero-padded HH:MM text is accepted and stored as it is;
  whenever the stripped text is two parts around its only colon that \<^verbatim>\<open>int\<close> reads as
  an hour from 0 to 23 and a minute from 0 to 59, the zero-padded rendering of that hour
  and minute is stored and confirmed;
  and whenever the stripped text is not of that kind, the error text is sent and the
  stored time is left as it was.
\<close>

theorem time_input_validation:
  assumes user: "map_of (users_file w) user_id = Some user"
    and reach: "user_id \<notin> set (blocked w)"
  shows
    "(\<forall>h m. h \<le> 23 \<and> m \<le> 59 \<and> message_text = fmt02 h @ '':'' @ fmt02 m \<longrightarrow>
        notification_time_in
          (world_of (snd (handle_time_input user_id message_text True w))) user_id
          = Some message_text) \<and>
     returned (snd (handle_time_input user_id message_text True w)) = Some MAIN_MENU \<and>
     (\<forall>p0 p1 hour minute. accepted_as (strip message_text) p0 p1 hour minute \<longrightarrow>
        notification_time_in
          (world_of (snd (handle_time_input user_id message_text True w))) user_id
          = Some (fmt02 (nat hour) @ '':'' @ fmt02 (nat minute)) \<and>
        new_messages w (world_of (snd (handle_time_input user_id message_text True w)))
          = [(user_id, TimeSaved (fmt02 (nat hour) @ '':'' @ fmt02 (nat minute))
                         (get_user_timezone user))]) \<and>
     ((\<forall>p0 p1 hour minute. \<not> accepted_as (strip message_text) p0 p1 hour minute) \<longrightarrow>
        notification_time_in
          (world_of (snd (handle_time_input user_id message_text True w))) user_id
          = notification_time user \<and>
        new_messages w (world_of (snd (handle_time_input user_id message_text True w)))
          = [(user_id, TimeError)])"
proof -
  let ?r = "snd (handle_time_input user_id message_text True w)"
  have stored: "notification_time_in (world_of ?r) user_id = Some t \<and>
                returned ?r = Some MAIN_MENU \<and>
                new_messages w (world_of ?r) = [(user_id, TimeSaved t (get_user_timezone user))]"
    if "parse_time_text (strip message_text) = Inr t" for t
    using that user reach
    by (simp add: handle_time_input_def Let_def reply_and_return_ok world_of_def returned_def
        notification_time_in_def update_conv' get_user_timezone_def new_messages_def)
  have rejected: "notification_time_in (world_of ?r) user_id = notification_time user \<and>
                returned ?r = Some MAIN_MENU \<and>
                new_messages w (world_of ?r) = [(user_id, TimeError)]"
    if "parse_time_text (strip message_text) = Inl e" for e
    using that user reach
    by (simp add: handle_time_input_def Let_def reply_and_return_ok world_of_def returned_def
        notification_time_in_def update_conv' new_messages_def)
  have first: "notification_time_in (world_of ?r) user_id = Some message_text"
    if "h \<le> 23" "m \<le> 59" "message_text = fmt02 h @ '':'' @ fmt02 m" for h m
  proof -
    have "parse_time_text (strip message_text) = Inr message_text"
      using that strip_canonical[OF that(1,2)] parse_time_text_canonical[OF that(1,2)] by simp
    from stored[OF this] show ?thesis by simp
  qed
  have ret: "returned ?r = Some MAIN_MENU"
  proof (cases "parse_time_text (strip message_text)")
    case (Inl e)
    from rejected[OF Inl] show ?thesis by simp
  next
    case (Inr t)
    from stored[OF Inr] show ?thesis by simp
  qed
  have acc: "notification_time_in (world_of ?r) user_id
               = Some (fmt02 (nat hour) @ '':'' @ fmt02 (nat minute)) \<and>
             new_messages w (world_of ?r)
               = [(user_id, TimeSaved (fmt02 (nat hour) @ '':'' @ fmt02 (nat minute))
                              (get_user_timezone user))]"
    if "accepted_as (strip message_text) p0 p1 hour minute" for p0 p1 hour minute
  proof -
    from that have "parse_time_text (strip message_text)
                      = Inr (fmt02 (nat hour) @ '':'' @ fmt02 (nat minute))"
      unfolding parse_time_text_accepts by blast
    from stored[OF this] show ?thesis by simp
  qed
  have rej: "notification_time_in (world_of ?r) user_id = notification_time user \<and>
             new_messages w (world_of ?r) = [(user_id, TimeError)]"
    if none: "\<forall>p0 p1 hour minute. \<not> accepted_as (strip message_text) p0 p1 hour minute"
  proof (cases "parse_time_text (strip message_text)")
    case (Inl e)
    from rejected[OF Inl] show ?thesis by simp
  next
    case (Inr t)
    then have "\<exists>p0 p1 hour minute. accepted_as (strip message_text) p0 p1 hour minute"
      unfolding parse_time_text_accepts by blast
    with none show ?thesis by blast
  qed
  from first ret acc rej show ?thesis by (intro conjI allI impI) (elim conjE, simp_all)
qed

theorem time_input_validation_witness:
  "map_of (users_file (fresh_world [])) ''7'' = Some (profile_with []) \<and>
   ''7'' \<notin> set (blocked (fresh_world [])) \<and>
   (9::nat) \<le> 23 \<and> (5::nat) \<le> 59 \<and> ''09:05'' = fmt02 9 @ '':'' @ fmt02 5 \<and>
   notification_time_in
     (world_of (snd (handle_time_input ''7'' ''09:05'' True (fresh_world [])))) ''7''
     = Some ''09:05'' \<and>
   returned (snd (handle_time_input ''7'' ''09:05'' True (fresh_world []))) = Some MAIN_MENU \<and>
   accepted_as (strip '' 9:5'') ''9'' ''5'' 9 5 \<and>
   notification_time_in
     (world_of (snd (handle_time_input ''7'' '' 9:5'' True (fresh_world [])))) ''7''
     = Some ''09:05'' \<and>
   (\<forall>p0 p1 hour minute. \<not> accepted_as (strip ''hello'') p0 p1 hour minute) \<and>
   notification_time_in
     (world_of (snd (handle_time_input ''7'' ''hello'' True (fresh_world [])))) ''7'' = None \<and>
   new_messages (fresh_world [])
     (world_of (snd (handle_time_input ''7'' ''hello'' True (fresh_world []))))
     = [(''7'', TimeError)]"
proof -
  have h1: "map_of (users_file (fresh_world [])) ''7'' = Some (profile_with [])"
    by (simp add: fresh_world_def world_with_def)
  have h2: "''7'' \<notin> set (blocked (fresh_world []))"
    by (simp add: fresh_world_def world_with_def)
  have h3: "''09:05'' = fmt02 9 @ '':'' @ fmt02 5"
    by (simp add: fmt02_def decimal.simps digit_char_def)
  note T = time_input_validation[OF h1 h2, of "''09:05''"]
  have pre: "(9::nat) \<le> 23 \<and> (5::nat) \<le> 59 \<and> ''09:05'' = fmt02 9 @ '':'' @ fmt02 5"
    using h3 by (intro conjI) simp_all
  have n: "notification_time_in
     (world_of (snd (handle_time_input ''7'' ''09:05'' True (fresh_world [])))) ''7''
     = Some ''09:05''"
    by (rule T[THEN conjunct1, rule_format, of 9 5]) (rule pre)
  have r: "returned (snd (handle_time_input ''7'' ''09:05'' True (fresh_world []))) = Some MAIN_MENU"
    by (rule T[THEN conjunct2, THEN conjunct1])
  have a: "accepted_as (strip '' 9:5'') ''9'' ''5'' 9 5"
    by (simp add: accepted_as_def strip_def isspace_def py_int_def int_space_def py_digits_def
        is_decimal_def digit_value_def)
  have f95: "fmt02 (nat 9) @ '':'' @ fmt02 (nat 5) = ''09:05''"
    by (simp add: fmt02_def decimal.simps digit_char_def)
  note A = time_input_validation[OF h1 h2, of "'' 9:5''", THEN conjunct2, THEN conjunct2,
      THEN conjunct1, rule_format, OF a, THEN conjunct1]
  have n2: "notification_time_in
     (world_of (snd (handle_time_input ''7'' '' 9:5'' True (fresh_world [])))) ''7''
     = Some ''09:05''"
    using A unfolding f95 .
  have st: "strip ''hello'' = ''hello''" by (simp add: strip_def isspace_def)
  have none: "\<forall>p0 p1 hour minute. \<not> accepted_as (strip ''hello'') p0 p1 hour minute"
  proof (intro allI notI)
    fix p0 p1 hour minute
    assume "accepted_as (strip ''hello'') p0 p1 hour minute"
    then have "''hello'' = p0 @ CHR '':'' # p1" by (simp add: accepted_as_def st)
    then have "CHR '':'' \<in> set ''hello''" by (metis in_set_conv_decomp)
    then show False by simp
  qed
  have nt: "notification_time (profile_with []) = None"
    by (simp add: profile_with_def empty_user_def)
  note R = time_input_validation[OF h1 h2, of "''hello''", THEN conjunct2, THEN conjunct2,
      THEN conjunct2, THEN mp, OF none]
  have n3: "notification_time_in
     (world_of (snd (handle_time_input ''7'' ''hello'' True (fresh_world [])))) ''7'' = None"
    using R[THEN conjunct1] unfolding nt .
  have m3: "new_messages (fresh_world [])
     (world_of (snd (handle_time_input ''7'' ''hello'' True (fresh_world []))))
     = [(''7'', TimeError)]"
    by (rule R[THEN conjunct2])
  from h1 h2 pre n r a n2 none n3 m3 show ?thesis by blast
qed

text \<open>
  Claim C6 as stated fails: the text 9:5 is not a valid HH:MM string, yet it is accepted,
  and what is stored is 09:05, not the text itself.
\<close>

theorem time_input_lenient_counterexample:
  "\<not> valid_hhmm ''9:5'' \<and>
   notification_time_in
     (world_of (snd (handle_time_input ''7'' ''9:5'' True (fresh_world [])))) ''7''
     = Some ''09:05''"
  by (simp add: valid_hhmm_def handle_time_input_def reply_and_return_def send_and_replace_def
      send_message_def strip_def isspace_def parse_time_text_def py_int_def int_space_def
      py_digits_def is_decimal_def digit_value_def fmt02_def decimal.simps digit_char_def
      notification_time_in_def world_of_def fresh_world_def world_with_def profile_with_def
      empty_user_def Let_def)
















text \<open>
  Outside the form of claim C5: an item whose first word has the shape of a time but is
  out of range is kept whole with no time, and one written with a superscript digit makes
  \<^verbatim>\<open>int\<close> raise, so that nothing is stored.
\<close>

lemma enter_plans_out_of_range:
  "enter_plans ''25:00 x'' = Inr [PlanDict None ''25:00 x'']"
  by (simp add: enter_plans_def strip_def isspace_def parse_item_def split_maxsplit1_def
      time_shaped_def str_isdigit_def isdigit_def is_decimal_def py_int_def int_space_def
      py_digits_def digit_value_def Let_def)

lemma enter_plans_superscript_digit:
  "enter_plans [CHR 0xB2, CHR ''3'', CHR '':'', CHR ''0'', CHR ''0'', CHR '' '', CHR ''x'']
     = Inl ValueError"
  by (simp add: enter_plans_def strip_def isspace_def parse_item_def split_maxsplit1_def
      time_shaped_def str_isdigit_def isdigit_def is_decimal_def py_int_def int_space_def
      py_digits_def digit_value_def Let_def)


end
